theory Spec2Isabelle
  imports Complex_Main "HOL-Library.Multiset"
begin

section \<open>Python values\<close>

text \<open>
  The analysis scripts work on the JSON trees returned by the reporting API. A JSON tree
  is a Python value: \<open>None\<close>, a bool, an unbounded int, a float, a str, a list or a
  dict with string keys. A dict is kept as an association list in insertion order
  (the order \<open>.values()\<close> iterates in); a lookup takes the first binding of the key.

  A float is an IEEE 754 binary64 value: a finite number (always a rational), one of
  the two infinities, or NaN. The sign of zero is not modelled (\<open>-0.0 == 0.0\<close> in Python, and none of the
  functions below looks at it).
\<close>

datatype pyfloat = Finite real | PosInf | NegInf | NaN

datatype pyval =
    PNone
  | PBool bool
  | PInt int
  | PFloat pyfloat
  | PStr string
  | PList "pyval list"
  | PDict "(string \<times> pyval) list"

type_synonym pydict = "(string \<times> pyval) list"

datatype pyerror = TypeError | ValueError | OverflowError | AttributeError | ZeroDivisionError

text \<open>\<open>d.get(k)\<close> and \<open>d.get(k, default)\<close> on a dict.\<close>

definition dict_get :: "pydict \<Rightarrow> string \<Rightarrow> pyval \<Rightarrow> pyval" where
  "dict_get d k dflt = (case map_of d k of None \<Rightarrow> dflt | Some v \<Rightarrow> v)"

text \<open>Truthiness, as \<open>if v:\<close> and \<open>not v\<close> test it.\<close>

fun truthy :: "pyval \<Rightarrow> bool" where
  "truthy PNone = False"
| "truthy (PBool b) = b"
| "truthy (PInt n) = (n \<noteq> 0)"
| "truthy (PFloat (Finite q)) = (q \<noteq> 0)"
| "truthy (PFloat _) = True"
| "truthy (PStr s) = (s \<noteq> [])"
| "truthy (PList xs) = (xs \<noteq> [])"
| "truthy (PDict kvs) = (kvs \<noteq> [])"

section \<open>Binary64 arithmetic\<close>

text \<open>
  Rounding of an exact rational result to the nearest binary64 value, ties to even,
  overflowing to an infinity. \<open>ilog2 a\<close> is the floor of the binary logarithm of a
  positive rational.
\<close>

function bit_length :: "int \<Rightarrow> int" where
  "bit_length n = (if n \<le> 0 then 0 else 1 + bit_length (n div 2))"
  by pat_completeness auto
termination
  by (relation "measure nat") auto

declare bit_length.simps [simp del]

definition pow2 :: "int \<Rightarrow> real" where
  "pow2 e = (if 0 \<le> e then 2 ^ nat e else 1 / 2 ^ nat (- e))"

definition ilog2 :: "real \<Rightarrow> int" where
  "ilog2 a = (if 1 \<le> a then bit_length \<lfloor>a\<rfloor> - 1
              else - bit_length (\<lceil>1 / a\<rceil> - 1))"

definition round_half_even :: "real \<Rightarrow> int" where
  "round_half_even x =
     (if x - of_int \<lfloor>x\<rfloor> < 1 / 2 then \<lfloor>x\<rfloor>
      else if 1 / 2 < x - of_int \<lfloor>x\<rfloor> then \<lfloor>x\<rfloor> + 1
      else if even \<lfloor>x\<rfloor> then \<lfloor>x\<rfloor> else \<lfloor>x\<rfloor> + 1)"

text \<open>The exponent of the last significand bit of the binade of \<open>a\<close> (subnormals share one).\<close>

definition ulp_exp :: "real \<Rightarrow> int" where
  "ulp_exp a = max (ilog2 a) (- 1022) - 52"

definition round_double :: "real \<Rightarrow> pyfloat" where
  "round_double q =
     (if q = 0 then Finite 0
      else if 2 ^ 1024 - 2 ^ 970 \<le> \<bar>q\<bar> then (if 0 < q then PosInf else NegInf)
      else Finite (sgn q * (of_int (round_half_even (\<bar>q\<bar> / pow2 (ulp_exp \<bar>q\<bar>)))
                            * pow2 (ulp_exp \<bar>q\<bar>))))"


subsection \<open>Float operations\<close>

text \<open>
  The four special-value tables are those of IEEE 754; a finite result is the exact
  result rounded. Python raises on a zero divisor before dividing, so \<open>fdiv\<close> is only
  ever applied to a non-zero divisor (see \<open>py_truediv\<close>).
\<close>

fun fneg :: "pyfloat \<Rightarrow> pyfloat" where
  "fneg (Finite a) = Finite (- a)"
| "fneg PosInf = NegInf"
| "fneg NegInf = PosInf"
| "fneg NaN = NaN"

fun fadd :: "pyfloat \<Rightarrow> pyfloat \<Rightarrow> pyfloat" where
  "fadd NaN _ = NaN"
| "fadd _ NaN = NaN"
| "fadd (Finite a) (Finite b) = round_double (a + b)"
| "fadd PosInf NegInf = NaN"
| "fadd NegInf PosInf = NaN"
| "fadd PosInf _ = PosInf"
| "fadd _ PosInf = PosInf"
| "fadd NegInf _ = NegInf"
| "fadd _ NegInf = NegInf"

definition fsub :: "pyfloat \<Rightarrow> pyfloat \<Rightarrow> pyfloat" where
  "fsub a b = fadd a (fneg b)"

fun fmul :: "pyfloat \<Rightarrow> pyfloat \<Rightarrow> pyfloat" where
  "fmul NaN _ = NaN"
| "fmul _ NaN = NaN"
| "fmul (Finite a) (Finite b) = round_double (a * b)"
| "fmul (Finite a) PosInf = (if a = 0 then NaN else if 0 < a then PosInf else NegInf)"
| "fmul (Finite a) NegInf = (if a = 0 then NaN else if 0 < a then NegInf else PosInf)"
| "fmul PosInf (Finite b) = (if b = 0 then NaN else if 0 < b then PosInf else NegInf)"
| "fmul NegInf (Finite b) = (if b = 0 then NaN else if 0 < b then NegInf else PosInf)"
| "fmul PosInf PosInf = PosInf"
| "fmul PosInf NegInf = NegInf"
| "fmul NegInf PosInf = NegInf"
| "fmul NegInf NegInf = PosInf"

fun fdiv :: "pyfloat \<Rightarrow> pyfloat \<Rightarrow> pyfloat" where
  "fdiv NaN _ = NaN"
| "fdiv _ NaN = NaN"
| "fdiv (Finite a) (Finite b) = round_double (a / b)"
| "fdiv (Finite a) _ = Finite 0"
| "fdiv PosInf (Finite b) = (if 0 < b then PosInf else NegInf)"
| "fdiv NegInf (Finite b) = (if 0 < b then NegInf else PosInf)"
| "fdiv _ _ = NaN"

text \<open>\<open>a <= b\<close> on floats: false as soon as one side is NaN.\<close>

fun float_le :: "pyfloat \<Rightarrow> pyfloat \<Rightarrow> bool" where
  "float_le NaN _ = False"
| "float_le _ NaN = False"
| "float_le NegInf _ = True"
| "float_le _ PosInf = True"
| "float_le PosInf _ = False"
| "float_le _ NegInf = False"
| "float_le (Finite a) (Finite b) = (a \<le> b)"

fun is_finite :: "pyfloat \<Rightarrow> bool" where
  "is_finite (Finite a) = True"
| "is_finite _ = False"

text \<open>\<open>math.isnan\<close> and \<open>math.isinf\<close> on a float.\<close>

definition isnan :: "pyfloat \<Rightarrow> bool" where
  "isnan f = (f = NaN)"

definition isinf :: "pyfloat \<Rightarrow> bool" where
  "isinf f = (f = PosInf \<or> f = NegInf)"

text \<open>
  \<open>round(x, 2)\<close> on a float: NaN and the infinities round to themselves; a finite
  \<open>x\<close> is rounded to two decimals on its exact value, ties to even, and the decimal
  result is converted back to the nearest float.
\<close>

fun round2 :: "pyfloat \<Rightarrow> pyfloat" where
  "round2 (Finite a) = round_double (of_int (round_half_even (a * 100)) / 100)"
| "round2 f = f"

subsection \<open>Numbers: \<open>isinstance(v, (int, float))\<close>\<close>

text \<open>
  A bool is an int in Python, so \<open>True\<close> and \<open>False\<close> pass the test as 1 and 0.
  Mixed arithmetic converts an int operand to float, which raises \<open>OverflowError\<close>
  when the int is out of the float range; comparisons between an int and a float are
  exact and never raise.
\<close>

datatype pynum = NInt int | NFloat pyfloat

fun as_num :: "pyval \<Rightarrow> pynum option" where
  "as_num (PBool b) = Some (NInt (if b then 1 else 0))"
| "as_num (PInt n) = Some (NInt n)"
| "as_num (PFloat f) = Some (NFloat f)"
| "as_num _ = None"

definition int_to_float :: "int \<Rightarrow> pyerror + pyfloat" where
  "int_to_float n =
     (case round_double (of_int n) of Finite q \<Rightarrow> Inr (Finite q) | _ \<Rightarrow> Inl OverflowError)"

fun num_to_float :: "pynum \<Rightarrow> pyerror + pyfloat" where
  "num_to_float (NInt n) = int_to_float n"
| "num_to_float (NFloat f) = Inr f"

fun exact :: "pynum \<Rightarrow> pyfloat" where
  "exact (NInt n) = Finite (of_int n)"
| "exact (NFloat f) = f"

definition num_ge :: "pynum \<Rightarrow> pynum \<Rightarrow> bool" where
  "num_ge a b = float_le (exact b) (exact a)"

definition num_eq :: "pynum \<Rightarrow> pynum \<Rightarrow> bool" where
  "num_eq a b = (float_le (exact a) (exact b) \<and> float_le (exact b) (exact a))"

text \<open>\<open>a / b\<close>: int by int is the correctly rounded quotient.\<close>

definition py_truediv :: "pynum \<Rightarrow> pynum \<Rightarrow> pyerror + pyfloat" where
  "py_truediv a b =
     (if num_eq b (NInt 0) then Inl ZeroDivisionError
      else case (a, b) of
          (NInt x, NInt y) \<Rightarrow>
            (case round_double (of_int x / of_int y) of
               Finite q \<Rightarrow> Inr (Finite q)
             | _ \<Rightarrow> Inl OverflowError)
        | _ \<Rightarrow>
            (case num_to_float a of
               Inl e \<Rightarrow> Inl e
             | Inr fa \<Rightarrow>
                 (case num_to_float b of Inl e \<Rightarrow> Inl e | Inr fb \<Rightarrow> Inr (fdiv fa fb))))"

text \<open>\<open>v * c\<close> for a float \<open>c\<close>: a str, list, dict or None operand raises \<open>TypeError\<close>.\<close>

definition mul_by_float :: "pyval \<Rightarrow> pyfloat \<Rightarrow> pyerror + pyfloat" where
  "mul_by_float v c =
     (case as_num v of
        None \<Rightarrow> Inl TypeError
      | Some n \<Rightarrow> (case num_to_float n of Inl e \<Rightarrow> Inl e | Inr f \<Rightarrow> Inr (fmul f c)))"

text \<open>\<open>v >= x\<close> for a number \<open>v\<close>: a non-numeric \<open>x\<close> raises \<open>TypeError\<close>.\<close>

definition ge_val :: "pynum \<Rightarrow> pyval \<Rightarrow> pyerror + bool" where
  "ge_val v x = (case as_num x of None \<Rightarrow> Inl TypeError | Some n \<Rightarrow> Inr (num_ge v n))"

subsection \<open>The builtins \<open>float()\<close> and \<open>int()\<close>\<close>

text \<open>
  Parsing a str is left to the two parameters \<open>s2f\<close> and \<open>s2i\<close>: Python's own
  \<open>float(str)\<close> and \<open>int(str)\<close>, of which only the interface is used (a value, or
  \<open>None\<close> for \<open>ValueError\<close>).
\<close>

fun py_float :: "(string \<Rightarrow> pyfloat option) \<Rightarrow> pyval \<Rightarrow> pyerror + pyfloat" where
  "py_float s2f PNone = Inl TypeError"
| "py_float s2f (PBool b) = Inr (Finite (if b then 1 else 0))"
| "py_float s2f (PInt n) = int_to_float n"
| "py_float s2f (PFloat f) = Inr f"
| "py_float s2f (PStr s) = (case s2f s of None \<Rightarrow> Inl ValueError | Some f \<Rightarrow> Inr f)"
| "py_float s2f (PList xs) = Inl TypeError"
| "py_float s2f (PDict kvs) = Inl TypeError"

definition truncate :: "real \<Rightarrow> int" where
  "truncate a = (if 0 \<le> a then \<lfloor>a\<rfloor> else \<lceil>a\<rceil>)"

fun py_int :: "(string \<Rightarrow> int option) \<Rightarrow> pyval \<Rightarrow> pyerror + int" where
  "py_int s2i PNone = Inl TypeError"
| "py_int s2i (PBool b) = Inr (if b then 1 else 0)"
| "py_int s2i (PInt n) = Inr n"
| "py_int s2i (PFloat (Finite a)) = Inr (truncate a)"
| "py_int s2i (PFloat NaN) = Inl ValueError"
| "py_int s2i (PFloat _) = Inl OverflowError"
| "py_int s2i (PStr s) = (case s2i s of None \<Rightarrow> Inl ValueError | Some n \<Rightarrow> Inr n)"
| "py_int s2i (PList xs) = Inl TypeError"
| "py_int s2i (PDict kvs) = Inl TypeError"

text \<open>A parser that accepts nothing, for examples in which no str is converted.\<close>

definition no_parse :: "string \<Rightarrow> 'a option" where
  "no_parse s = None"

section \<open>analyze\_district\_kpis.py: conversions and deltas\<close>

datatype target_type = TFloat | TInt

text \<open>
  \<open>_safe_convert(value, target_type, default)\<close>. The \<open>except\<close> clause names
  \<open>ValueError\<close> and \<open>TypeError\<close> only; any other exception leaves the function.
\<close>

definition caught :: "pyerror \<Rightarrow> bool" where
  "caught e = (e = ValueError \<or> e = TypeError)"

definition safe_convert ::
  "(string \<Rightarrow> pyfloat option) \<Rightarrow> (string \<Rightarrow> int option) \<Rightarrow> pyval \<Rightarrow> target_type \<Rightarrow> pyval
     \<Rightarrow> pyerror + pyval" where
  "safe_convert s2f s2i v target_type dflt =
     (if v = PNone then Inr dflt
      else case target_type of
          TFloat \<Rightarrow>
            (case py_float s2f v of
               Inl e \<Rightarrow> if caught e then Inr dflt else Inl e
             | Inr converted \<Rightarrow>
                 if isnan converted \<or> isinf converted then Inr dflt else Inr (PFloat converted))
        | TInt \<Rightarrow>
            (case py_int s2i v of
               Inl e \<Rightarrow> if caught e then Inr dflt else Inl e
             | Inr converted \<Rightarrow> Inr (PInt converted)))"

text \<open>\<open>_calculate_change(current_val, previous_val)\<close>.\<close>

definition calculate_change ::
  "(string \<Rightarrow> pyfloat option) \<Rightarrow> (string \<Rightarrow> int option) \<Rightarrow> pyval \<Rightarrow> pyval \<Rightarrow> pyerror + pyval" where
  "calculate_change s2f s2i current_val previous_val =
     (case safe_convert s2f s2i current_val TFloat PNone of
        Inl e \<Rightarrow> Inl e
      | Inr num_current \<Rightarrow>
          (case safe_convert s2f s2i previous_val TFloat PNone of
             Inl e \<Rightarrow> Inl e
           | Inr num_previous \<Rightarrow>
               (case (num_current, num_previous) of
                  (PFloat c, PFloat p) \<Rightarrow>
                    (case fsub c p of
                       Finite change \<Rightarrow>
                         if change = of_int (truncate change) then Inr (PInt (truncate change))
                         else Inr (PFloat (round2 (Finite change)))
                     | _ \<Rightarrow> Inr PNone)
                | _ \<Rightarrow> Inr PNone)))"

text \<open>\<open>_calculate_rank_change(current_rank, previous_rank)\<close>.\<close>

definition calculate_rank_change ::
  "(string \<Rightarrow> int option) \<Rightarrow> pyval \<Rightarrow> pyval \<Rightarrow> pyerror + pyval" where
  "calculate_rank_change s2i current_rank previous_rank =
     (if current_rank = PNone \<or> previous_rank = PNone then Inr PNone
      else case py_int s2i previous_rank of
          Inl e \<Rightarrow> if caught e then Inr PNone else Inl e
        | Inr p \<Rightarrow>
            (case py_int s2i current_rank of
               Inl e \<Rightarrow> if caught e then Inr PNone else Inl e
             | Inr c \<Rightarrow> Inr (PInt (p - c))))"

section \<open>jsm\_dashboard\_generator.py: grades\<close>

text \<open>The five Hindi grade labels, as the UTF-8 bytes of the source's string literals.\<close>

definition label_excellent :: string where
  "label_excellent =
     [CHR 0xE0, CHR 0xA4, CHR 0x89, CHR 0xE0, CHR 0xA4, CHR 0xA4, CHR 0xE0, CHR 0xA5,
      CHR 0x8D, CHR 0xE0, CHR 0xA4, CHR 0x95, CHR 0xE0, CHR 0xA5, CHR 0x83, CHR 0xE0,
      CHR 0xA4, CHR 0xB7, CHR 0xE0, CHR 0xA5, CHR 0x8D, CHR 0xE0, CHR 0xA4, CHR 0x9F]"

definition label_good :: string where
  "label_good =
     [CHR 0xE0, CHR 0xA4, CHR 0x85, CHR 0xE0, CHR 0xA4, CHR 0x9A, CHR 0xE0, CHR 0xA5,
      CHR 0x8D, CHR 0xE0, CHR 0xA4, CHR 0x9B, CHR 0xE0, CHR 0xA4, CHR 0xBE]"

definition label_average :: string where
  "label_average =
     [CHR 0xE0, CHR 0xA4, CHR 0x94, CHR 0xE0, CHR 0xA4, CHR 0xB8, CHR 0xE0, CHR 0xA4,
      CHR 0xA4]"

definition label_poor :: string where
  "label_poor =
     [CHR 0xE0, CHR 0xA4, CHR 0xA8, CHR 0xE0, CHR 0xA4, CHR 0xBF, CHR 0xE0, CHR 0xA4,
      CHR 0xAE, CHR 0xE0, CHR 0xA5, CHR 0x8D, CHR 0xE0, CHR 0xA4, CHR 0xA8]"

definition label_very_poor :: string where
  "label_very_poor =
     [CHR 0xE0, CHR 0xA4, CHR 0x85, CHR 0xE0, CHR 0xA4, CHR 0xA4, CHR 0xE0, CHR 0xA4,
      CHR 0xBF, CHR 0x20, CHR 0xE0, CHR 0xA4, CHR 0xA8, CHR 0xE0, CHR 0xA4, CHR 0xBF,
      CHR 0xE0, CHR 0xA4, CHR 0xAE, CHR 0xE0, CHR 0xA5, CHR 0x8D, CHR 0xE0, CHR 0xA4,
      CHR 0xA8]"

text \<open>The float literals \<open>1.25\<close> (exact) and \<open>0.7\<close> (the nearest binary64 value).\<close>

definition lit_1_25 :: pyfloat where
  "lit_1_25 = Finite (5 / 4)"

definition lit_0_7 :: pyfloat where
  "lit_0_7 = Finite (3152519739159347 / 4503599627370496)"

text \<open>\<open>percentage = (value / max_value) * 100\<close>.\<close>

definition percentage :: "pynum \<Rightarrow> pynum \<Rightarrow> pyerror + pyfloat" where
  "percentage v m =
     (case py_truediv v m of
        Inl e \<Rightarrow> Inl e
      | Inr q \<Rightarrow> (case int_to_float 100 of Inl e \<Rightarrow> Inl e | Inr h \<Rightarrow> Inr (fmul q h)))"

text \<open>
  \<open>get_grade_label(value, max_value, state_stats)\<close>. The statistical branch returns
  from every arm, so the percentage fallback runs only when the branch is not entered.
\<close>

definition get_grade_label :: "pyval \<Rightarrow> pyval \<Rightarrow> pyval \<Rightarrow> pyerror + string" where
  "get_grade_label value max_value state_stats =
     (case (as_num value, as_num max_value) of
        (Some v, Some m) \<Rightarrow>
          if num_eq m (NInt 0) then Inr ''N/A''
          else
            let fallback =
              (case percentage v m of
                 Inl e \<Rightarrow> Inl e
               | Inr pct \<Rightarrow>
                   if num_ge (NFloat pct) (NInt 90) then Inr label_excellent
                   else if num_ge (NFloat pct) (NInt 70) then Inr label_good
                   else if num_ge (NFloat pct) (NInt 50) then Inr label_average
                   else if num_ge (NFloat pct) (NInt 30) then Inr label_poor
                   else Inr label_very_poor)
            in
            (case state_stats of
               PDict stats \<Rightarrow>
                 if truthy state_stats then
                   let avg = dict_get stats ''average'' (PInt 0);
                       median = dict_get stats ''median'' (PInt 0)
                   in
                   if truthy avg \<and> truthy median then
                     (case mul_by_float avg lit_1_25 of
                        Inl e \<Rightarrow> Inl e
                      | Inr t1 \<Rightarrow>
                          if num_ge v (NFloat t1) then Inr label_excellent
                          else
                            (case ge_val v avg of
                               Inl e \<Rightarrow> Inl e
                             | Inr c2 \<Rightarrow>
                                 if c2 then Inr label_good
                                 else
                                   (case ge_val v median of
                                      Inl e \<Rightarrow> Inl e
                                    | Inr c3 \<Rightarrow>
                                        if c3 then Inr label_average
                                        else
                                          (case mul_by_float median lit_0_7 of
                                             Inl e \<Rightarrow> Inl e
                                           | Inr t4 \<Rightarrow>
                                               if num_ge v (NFloat t4) then Inr label_poor
                                               else Inr label_very_poor))))
                   else fallback
                 else fallback
             | _ \<Rightarrow> fallback)
      | _ \<Rightarrow> Inr ''N/A'')"

text \<open>\<open>get_grade_class(value, max_value, state_stats)\<close>, the second copy of the logic.\<close>

definition get_grade_class :: "pyval \<Rightarrow> pyval \<Rightarrow> pyval \<Rightarrow> pyerror + string" where
  "get_grade_class value max_value state_stats =
     (case (as_num value, as_num max_value) of
        (Some v, Some m) \<Rightarrow>
          if num_eq m (NInt 0) then Inr ''grade-badge''
          else
            let fallback =
              (case percentage v m of
                 Inl e \<Rightarrow> Inl e
               | Inr pct \<Rightarrow>
                   if num_ge (NFloat pct) (NInt 90) then Inr ''grade-badge excellent''
                   else if num_ge (NFloat pct) (NInt 70) then Inr ''grade-badge good''
                   else if num_ge (NFloat pct) (NInt 50) then Inr ''grade-badge average''
                   else if num_ge (NFloat pct) (NInt 30) then Inr ''grade-badge poor''
                   else Inr ''grade-badge very-poor'')
            in
            (case state_stats of
               PDict stats \<Rightarrow>
                 if truthy state_stats then
                   let avg = dict_get stats ''average'' (PInt 0);
                       median = dict_get stats ''median'' (PInt 0)
                   in
                   if truthy avg \<and> truthy median then
                     (case mul_by_float avg lit_1_25 of
                        Inl e \<Rightarrow> Inl e
                      | Inr t1 \<Rightarrow>
                          if num_ge v (NFloat t1) then Inr ''grade-badge excellent''
                          else
                            (case ge_val v avg of
                               Inl e \<Rightarrow> Inl e
                             | Inr c2 \<Rightarrow>
                                 if c2 then Inr ''grade-badge good''
                                 else
                                   (case ge_val v median of
                                      Inl e \<Rightarrow> Inl e
                                    | Inr c3 \<Rightarrow>
                                        if c3 then Inr ''grade-badge average''
                                        else
                                          (case mul_by_float median lit_0_7 of
                                             Inl e \<Rightarrow> Inl e
                                           | Inr t4 \<Rightarrow>
                                               if num_ge v (NFloat t4) then Inr ''grade-badge poor''
                                               else Inr ''grade-badge very-poor''))))
                   else fallback
                 else fallback
             | _ \<Rightarrow> fallback)
      | _ \<Rightarrow> Inr ''grade-badge'')"

text \<open>
  The grade function as the specification words it. A band, or \<open>None\<close> for the
  ``N/A'' result. The inputs are numbers or not; an average or a median is present and
  non-zero when it is a number other than zero. The products and the percentage are
  float operations, as any implementation computes them.
\<close>

datatype band = Excellent | Good | Average | Poor | VeryPoor

definition to_float :: "pynum \<Rightarrow> pyfloat" where
  "to_float n = (case n of NInt k \<Rightarrow> round_double (of_int k) | NFloat f \<Rightarrow> f)"






fun label_of :: "band option \<Rightarrow> string" where
  "label_of None = ''N/A''"
| "label_of (Some Excellent) = label_excellent"
| "label_of (Some Good) = label_good"
| "label_of (Some Average) = label_average"
| "label_of (Some Poor) = label_poor"
| "label_of (Some VeryPoor) = label_very_poor"

text \<open>
  The inputs of the grade function that the analysis produces: an int argument converts
  to float, and an average or a median is absent, null or a number that converts.
\<close>

definition in_float_range :: "pyval \<Rightarrow> bool" where
  "in_float_range x =
     (case as_num x of
        Some (NInt k) \<Rightarrow> \<bar>real_of_int k\<bar> < 2 ^ 1024 - 2 ^ 970
      | _ \<Rightarrow> True)"



text \<open>The display class of each band, and of the ``N/A'' result.\<close>

fun class_of :: "band option \<Rightarrow> string" where
  "class_of None = ''grade-badge''"
| "class_of (Some Excellent) = ''grade-badge excellent''"
| "class_of (Some Good) = ''grade-badge good''"
| "class_of (Some Average) = ''grade-badge average''"
| "class_of (Some Poor) = ''grade-badge poor''"
| "class_of (Some VeryPoor) = ''grade-badge very-poor''"

text \<open>The decision the two grade functions share, with the exceptions it can raise.\<close>

definition band_by_percentage :: "pynum \<Rightarrow> pynum \<Rightarrow> pyerror + band option" where
  "band_by_percentage v m =
     (case percentage v m of
        Inl e \<Rightarrow> Inl e
      | Inr pct \<Rightarrow>
          Inr (Some (if num_ge (NFloat pct) (NInt 90) then Excellent
                     else if num_ge (NFloat pct) (NInt 70) then Good
                     else if num_ge (NFloat pct) (NInt 50) then Average
                     else if num_ge (NFloat pct) (NInt 30) then Poor
                     else VeryPoor)))"

definition band_by_stats :: "pynum \<Rightarrow> pyval \<Rightarrow> pyval \<Rightarrow> pyerror + band option" where
  "band_by_stats v avg median =
     (case mul_by_float avg lit_1_25 of
        Inl e \<Rightarrow> Inl e
      | Inr t1 \<Rightarrow>
          if num_ge v (NFloat t1) then Inr (Some Excellent)
          else
            (case ge_val v avg of
               Inl e \<Rightarrow> Inl e
             | Inr c2 \<Rightarrow>
                 if c2 then Inr (Some Good)
                 else
                   (case ge_val v median of
                      Inl e \<Rightarrow> Inl e
                    | Inr c3 \<Rightarrow>
                        if c3 then Inr (Some Average)
                        else
                          (case mul_by_float median lit_0_7 of
                             Inl e \<Rightarrow> Inl e
                           | Inr t4 \<Rightarrow>
                               if num_ge v (NFloat t4) then Inr (Some Poor)
                               else Inr (Some VeryPoor)))))"

definition uses_stats :: "pyval \<Rightarrow> bool" where
  "uses_stats state_stats =
     (case state_stats of
        PDict stats \<Rightarrow>
          truthy state_stats \<and> truthy (dict_get stats ''average'' (PInt 0))
            \<and> truthy (dict_get stats ''median'' (PInt 0))
      | _ \<Rightarrow> False)"

definition stat_of :: "pyval \<Rightarrow> string \<Rightarrow> pyval" where
  "stat_of state_stats k = (case state_stats of PDict stats \<Rightarrow> dict_get stats k (PInt 0) | _ \<Rightarrow> PInt 0)"

definition grade_band :: "pyval \<Rightarrow> pyval \<Rightarrow> pyval \<Rightarrow> pyerror + band option" where
  "grade_band value max_value state_stats =
     (case (as_num value, as_num max_value) of
        (Some v, Some m) \<Rightarrow>
          if num_eq m (NInt 0) then Inr None
          else if uses_stats state_stats then
            band_by_stats v (stat_of state_stats ''average'') (stat_of state_stats ''median'')
          else band_by_percentage v m
      | _ \<Rightarrow> Inr None)"

text \<open>A float in the top binade, \<open>2.0 ** 1023\<close> (about \<open>8.99e307\<close>).\<close>

definition two_1023 :: real where
  "two_1023 = 2 ^ 1023"

section \<open>utils.py\<close>

text \<open>
  \<open>safe_get(data, keys, default)\<close>. \<open>walk\<close> is the loop over the keys; it gives
  \<open>None\<close> where the source returns the default from inside the loop: on a null
  intermediate value, and on the \<open>AttributeError\<close> that \<open>.get\<close> raises on a value
  that is not a dict, which the \<open>except Exception\<close> clause turns into the default.
\<close>

fun walk :: "pyval \<Rightarrow> string list \<Rightarrow> pyval option" where
  "walk temp [] = Some temp"
| "walk temp (key # keys) =
     (if temp = PNone then None
      else case temp of PDict d \<Rightarrow> walk (dict_get d key PNone) keys | _ \<Rightarrow> None)"

definition safe_get :: "pyval \<Rightarrow> string list \<Rightarrow> pyval \<Rightarrow> pyval" where
  "safe_get data keys dflt =
     (case data of
        PDict d \<Rightarrow>
          (case walk data keys of
             None \<Rightarrow> dflt
           | Some temp \<Rightarrow>
               if temp = PFloat NaN then dflt
               else if temp \<noteq> PNone then temp else dflt)
      | _ \<Rightarrow> dflt)"

subsection \<open>Sorting numbers\<close>

text \<open>
  The values a sort compares: ints and floats by their exact value, with the two
  infinities at the ends. NaN has no place in the order; every sort below runs on
  values from which NaN has been filtered.
\<close>

datatype sortkey = KNegInf | KFin real | KPosInf

instantiation sortkey :: linorder
begin

fun less_eq_sortkey :: "sortkey \<Rightarrow> sortkey \<Rightarrow> bool" where
  "less_eq_sortkey KNegInf _ = True"
| "less_eq_sortkey _ KPosInf = True"
| "less_eq_sortkey (KFin a) (KFin b) = (a \<le> b)"
| "less_eq_sortkey _ _ = False"

definition less_sortkey :: "sortkey \<Rightarrow> sortkey \<Rightarrow> bool" where
  "less_sortkey x y = (x \<le> y \<and> \<not> y \<le> x)"

instance
proof
  fix x y z :: sortkey
  show "x < y \<longleftrightarrow> x \<le> y \<and> \<not> y \<le> x" by (rule less_sortkey_def)
  show "x \<le> x" by (cases x) simp_all
  show "x \<le> y \<Longrightarrow> y \<le> z \<Longrightarrow> x \<le> z" by (cases x; cases y; cases z) simp_all
  show "x \<le> y \<Longrightarrow> y \<le> x \<Longrightarrow> x = y" by (cases x; cases y) simp_all
  show "x \<le> y \<or> y \<le> x" by (cases x; cases y) auto
qed

end

fun key_of_num :: "pynum \<Rightarrow> sortkey option" where
  "key_of_num (NInt n) = Some (KFin (of_int n))"
| "key_of_num (NFloat (Finite a)) = Some (KFin a)"
| "key_of_num (NFloat PosInf) = Some KPosInf"
| "key_of_num (NFloat NegInf) = Some KNegInf"
| "key_of_num (NFloat NaN) = None"

text \<open>
  \<open>xs.sort(key=..., reverse=...)\<close> and \<open>sorted\<close>: a stable sort; with \<open>reverse\<close> the
  order is descending and equal keys still keep their original order (the list is
  reversed, sorted and reversed again).
\<close>

definition py_sort :: "('a \<Rightarrow> 'k::linorder) \<Rightarrow> bool \<Rightarrow> 'a list \<Rightarrow> 'a list" where
  "py_sort key reverse xs = (if reverse then rev (sort_key key (rev xs)) else sort_key key xs)"

subsection \<open>\<open>get_top_bottom_by_field\<close>\<close>

text \<open>
  An item is kept when \<open>isinstance(value, (int, float)) and value == value and name\<close>;
  \<open>value == value\<close> fails for NaN only. A kept item is paired with its value.
\<close>

definition key_path :: "string list option \<Rightarrow> string \<Rightarrow> string list" where
  "key_path nested_keys field_key = (case nested_keys of None \<Rightarrow> [] | Some ks \<Rightarrow> ks) @ [field_key]"

definition valid_entry ::
  "string \<Rightarrow> string list option \<Rightarrow> string \<Rightarrow> pyval \<Rightarrow> (pyval \<times> sortkey) option" where
  "valid_entry field_key nested_keys name_key item =
     (let v = safe_get item (key_path nested_keys field_key) PNone;
          name = safe_get item [name_key] PNone
      in case as_num v of
           None \<Rightarrow> None
         | Some n \<Rightarrow>
             (case key_of_num n of
                None \<Rightarrow> None
              | Some k \<Rightarrow> if truthy name then Some (item, k) else None))"

definition get_top_bottom_by_field ::
  "pyval list option \<Rightarrow> string \<Rightarrow> string list option \<Rightarrow> string \<Rightarrow> bool
     \<Rightarrow> pyval option \<times> pyval option" where
  "get_top_bottom_by_field data_list field_key nested_keys name_key higher_is_better =
     (case data_list of
        None \<Rightarrow> (None, None)
      | Some items \<Rightarrow>
          if items = [] then (None, None)
          else
            let valid_entries = List.map_filter (valid_entry field_key nested_keys name_key) items
            in if valid_entries = [] then (None, None)
               else let sorted_entries = py_sort snd higher_is_better valid_entries
                    in (Some (fst (hd sorted_entries)), Some (fst (last sorted_entries))))"

text \<open>
  The value an item is compared by, when it has one (a number other than NaN), and the
  test that keeps an item.
\<close>

definition compared :: "string \<Rightarrow> string list option \<Rightarrow> pyval \<Rightarrow> sortkey option" where
  "compared field_key nested_keys item =
     (case as_num (safe_get item (key_path nested_keys field_key) PNone) of
        None \<Rightarrow> None
      | Some n \<Rightarrow> key_of_num n)"

definition is_kept :: "string \<Rightarrow> string list option \<Rightarrow> string \<Rightarrow> pyval \<Rightarrow> bool" where
  "is_kept field_key nested_keys name_key item =
     (compared field_key nested_keys item \<noteq> None \<and> truthy (safe_get item [name_key] PNone))"

definition items_of :: "pyval list option \<Rightarrow> pyval list" where
  "items_of data_list = (case data_list of None \<Rightarrow> [] | Some items \<Rightarrow> items)"

section \<open>Example records\<close>

text \<open>
  The records of the specification's end-to-end scenario, and one whose score is the
  JSON value \<open>Infinity\<close>.
\<close>

definition rec_A :: pyval where
  "rec_A = PDict [(''name'', PStr ''A''), (''score'', PFloat (Finite (37 / 2))), (''count'', PInt 100)]"

definition rec_B :: pyval where
  "rec_B = PDict [(''name'', PStr ''B''), (''score'', PFloat (Finite (37 / 2))), (''count'', PInt 80)]"

definition rec_C :: pyval where
  "rec_C = PDict [(''name'', PStr ''C''), (''score'', PFloat (Finite 12)), (''count'', PInt 200)]"

definition rec_inf :: pyval where
  "rec_inf = PDict [(''name'', PStr ''D''), (''score'', PFloat PosInf), (''count'', PInt 1)]"

section \<open>analyze\_district\_kpis.py: ranking\<close>

definition TOTAL_MARKS_KEY :: string where
  "TOTAL_MARKS_KEY = ''total_marks''"

text \<open>
  The test \<open>isinstance(marks, (int, float)) and not math.isnan(marks) and not
  math.isinf(marks)\<close>. On an int, \<open>math.isnan\<close> converts its argument to float first and
  raises \<open>OverflowError\<close> when it is out of range. An entry that passes is kept together
  with its score, the value the sort and the loop read back with
  \<open>.get(TOTAL_MARKS_KEY)\<close>.
\<close>

definition valid_marks :: "pyval \<Rightarrow> pyerror + sortkey option" where
  "valid_marks marks =
     (case as_num marks of
        None \<Rightarrow> Inr None
      | Some n \<Rightarrow>
          (case num_to_float n of
             Inl e \<Rightarrow> Inl e
           | Inr f \<Rightarrow> if \<not> isnan f \<and> \<not> isinf f then Inr (key_of_num n) else Inr None))"

fun valid_entries :: "pydict list \<Rightarrow> pyerror + (pydict \<times> sortkey) list" where
  "valid_entries [] = Inr []"
| "valid_entries (data # rest) =
     (case valid_marks (dict_get data TOTAL_MARKS_KEY PNone) of
        Inl e \<Rightarrow> Inl e
      | Inr marks \<Rightarrow>
          (case valid_entries rest of
             Inl e \<Rightarrow> Inl e
           | Inr entries \<Rightarrow>
               Inr (case marks of None \<Rightarrow> entries | Some score \<Rightarrow> (data, score) # entries)))"

text \<open>A list or a dict cannot be a dict key: \<open>ranks[dist_name] = ...\<close> raises \<open>TypeError\<close>.\<close>

fun hashable :: "pyval \<Rightarrow> bool" where
  "hashable (PList xs) = False"
| "hashable (PDict kvs) = False"
| "hashable _ = True"

text \<open>
  The loop over the sorted districts. \<open>ranks\<close> is the dict being filled; its keys are
  compared as values, which is Python's key equality for the strings that names are.
\<close>

fun rank_loop ::
  "(pydict \<times> sortkey) list \<Rightarrow> nat \<Rightarrow> sortkey \<Rightarrow> nat \<Rightarrow> (pyval \<rightharpoonup> nat)
     \<Rightarrow> pyerror + (pyval \<rightharpoonup> nat)" where
  "rank_loop [] current_rank last_score districts_at_rank ranks = Inr ranks"
| "rank_loop ((district_data, current_score) # rest) current_rank last_score districts_at_rank ranks =
     (let dist_name = dict_get district_data ''name'' PNone;
          current_rank' =
            (if current_score \<noteq> last_score then current_rank + districts_at_rank else current_rank);
          districts_at_rank' =
            (if current_score \<noteq> last_score then 1 else districts_at_rank + 1);
          last_score' = (if current_score \<noteq> last_score then current_score else last_score)
      in if truthy dist_name then
           if hashable dist_name then
             rank_loop rest current_rank' last_score' districts_at_rank'
               (ranks(dist_name \<mapsto> current_rank' + 1))
           else Inl TypeError
         else rank_loop rest current_rank' last_score' districts_at_rank' ranks)"

text \<open>
  \<open>calculate_ranks(processed_state_data)\<close>. The argument is a dict from district name
  to district record; only its values are read, in insertion order.
\<close>

definition calculate_ranks :: "(string \<times> pydict) list \<Rightarrow> pyerror + (pyval \<rightharpoonup> nat)" where
  "calculate_ranks processed_state_data =
     (if processed_state_data = [] then Inr Map.empty
      else case valid_entries (map snd processed_state_data) of
          Inl e \<Rightarrow> Inl e
        | Inr entries \<Rightarrow>
            if entries = [] then Inr Map.empty
            else rank_loop (py_sort snd True entries) 0 KNegInf 0 Map.empty)"

text \<open>
  The score of a district whose \<open>total_marks\<close> is a non-null, non-NaN, non-infinite
  number; \<open>None\<close> for every other district.
\<close>

definition finite_marks :: "pydict \<Rightarrow> real option" where
  "finite_marks d =
     (case as_num (dict_get d TOTAL_MARKS_KEY PNone) of
        Some (NInt n) \<Rightarrow> Some (of_int n)
      | Some (NFloat (Finite a)) \<Rightarrow> Some a
      | _ \<Rightarrow> None)"

definition outranks :: "real \<Rightarrow> pydict \<Rightarrow> bool" where
  "outranks x d = (case finite_marks d of None \<Rightarrow> False | Some y \<Rightarrow> x < y)"

text \<open>
  A collection of district records as the aggregation builds it: every record is stored
  under its own name, a non-empty string, and an int \<open>total_marks\<close> converts to float.
\<close>

definition district_map :: "(string \<times> pydict) list \<Rightarrow> bool" where
  "district_map ps =
     (distinct (map fst ps) \<and>
      list_all (\<lambda>(k, d). k \<noteq> [] \<and> dict_get d ''name'' PNone = PStr k
                  \<and> in_float_range (dict_get d TOTAL_MARKS_KEY PNone)) ps)"

definition district :: "string \<Rightarrow> pyval \<Rightarrow> pydict" where
  "district name marks = [(''name'', PStr name), (TOTAL_MARKS_KEY, marks)]"

text \<open>A district map with the scores 10, 10 and 8, and one district without a total.\<close>

definition four_districts :: "(string \<times> pydict) list" where
  "four_districts =
     [(''A'', district ''A'' (PInt 10)), (''B'', district ''B'' (PInt 10)),
      (''C'', district ''C'' (PInt 8)), (''D'', district ''D'' PNone)]"

subsection \<open>Competition ranks\<close>

text \<open>
  The rank of a score among scored entries: one more than the number of entries with
  a strictly greater score. \<open>assign\<close> writes such a rank under an entry's name, as one
  round of the loop does.
\<close>

definition competition_rank :: "(pydict \<times> sortkey) list \<Rightarrow> sortkey \<Rightarrow> nat" where
  "competition_rank entries k = 1 + length (filter (\<lambda>e. k < snd e) entries)"

definition entry_name :: "pydict \<times> sortkey \<Rightarrow> pyval" where
  "entry_name e = dict_get (fst e) ''name'' PNone"

definition assign ::
  "(pydict \<times> sortkey) list \<Rightarrow> (pyval \<rightharpoonup> nat) \<Rightarrow> pydict \<times> sortkey \<Rightarrow> (pyval \<rightharpoonup> nat)" where
  "assign entries ranks e =
     (if truthy (entry_name e) then ranks(entry_name e \<mapsto> competition_rank entries (snd e))
      else ranks)"

definition entry_of :: "pydict \<Rightarrow> (pydict \<times> sortkey) option" where
  "entry_of d =
     (case valid_marks (dict_get d TOTAL_MARKS_KEY PNone) of
        Inr (Some k) \<Rightarrow> Some (d, k)
      | _ \<Rightarrow> None)"

definition marks_overflow :: "pydict \<Rightarrow> bool" where
  "marks_overflow d = (valid_marks (dict_get d TOTAL_MARKS_KEY PNone) = Inl OverflowError)"

text \<open>A name that is a string, or missing.\<close>

fun str_or_none :: "pyval \<Rightarrow> bool" where
  "str_or_none PNone = True"
| "str_or_none (PStr s) = True"
| "str_or_none _ = False"

text \<open>The ranks of the scored entries that carry a given name.\<close>

definition ranks_named :: "(pydict \<times> sortkey) list \<Rightarrow> pyval \<Rightarrow> nat set" where
  "ranks_named entries n =
     (\<lambda>e. competition_rank entries (snd e)) `
       {e \<in> set entries. truthy (entry_name e) \<and> entry_name e = n}"

definition scored :: "(string \<times> pydict) list \<Rightarrow> (pydict \<times> sortkey) list" where
  "scored ps = List.map_filter entry_of (map snd ps)"

definition named_ok :: "(string \<times> pydict) list \<Rightarrow> bool" where
  "named_ok ps = list_all (\<lambda>(k, d). str_or_none (dict_get d ''name'' PNone)) ps"

section \<open>analyze\_district\_kpis.py: total marks\<close>







text \<open>\<open>d[k] = v\<close>: an existing key keeps its place, a new key goes to the end.\<close>

fun dict_set :: "pydict \<Rightarrow> string \<Rightarrow> pyval \<Rightarrow> pydict" where
  "dict_set [] k v = [(k, v)]"
| "dict_set ((k', v') # rest) k v = (if k' = k then (k, v) # rest else (k', v') # dict_set rest k v)"


section \<open>analyze\_district\_kpis.py: the aggregation of a date\<close>


























section \<open>analyze\_old\_works.py: changes per work category\<close>

definition OLD_NRM_TARGET_CATEGORIES :: "string list" where
  "OLD_NRM_TARGET_CATEGORIES =
     [''Talab Nirman'', ''Check_Stop Dam'', ''Recharge Pit'', ''Koop Nirman'',
      ''Percolation Talab'', ''Khet Talab'', ''Other NRM Work'']"

text \<open>\<open>types.get(category, {})\<close>: \<open>AttributeError\<close> when \<open>types\<close> is not a dict.\<close>

definition category_data :: "pyval \<Rightarrow> string \<Rightarrow> pyerror + pyval" where
  "category_data types category =
     (case types of
        PDict d \<Rightarrow> Inr (dict_get d category (PDict []))
      | _ \<Rightarrow> Inl AttributeError)"

text \<open>
  One round of the loop in \<open>analyze\<close>, up to the test: the change of the completed
  count and the change of the marks of a category, or the first exception raised.
\<close>

definition category_change ::
  "(string \<Rightarrow> pyfloat option) \<Rightarrow> (string \<Rightarrow> int option) \<Rightarrow> pyval \<Rightarrow> pyval \<Rightarrow> string
     \<Rightarrow> pyerror + (int \<times> pyfloat)" where
  "category_change s2f s2i curr_types prev_types category =
     (case category_data curr_types category of
        Inl e \<Rightarrow> Inl e
      | Inr curr_cat_data \<Rightarrow>
     (case category_data prev_types category of
        Inl e \<Rightarrow> Inl e
      | Inr prev_cat_data \<Rightarrow>
     (case py_int s2i (safe_get curr_cat_data [''completed''] (PInt 0)) of
        Inl e \<Rightarrow> Inl e
      | Inr curr_completed \<Rightarrow>
     (case py_int s2i (safe_get prev_cat_data [''completed''] (PInt 0)) of
        Inl e \<Rightarrow> Inl e
      | Inr prev_completed \<Rightarrow>
     (case py_float s2f (safe_get curr_cat_data [''marks''] (PFloat (Finite 0))) of
        Inl e \<Rightarrow> Inl e
      | Inr curr_marks \<Rightarrow>
     (case py_float s2f (safe_get prev_cat_data [''marks''] (PFloat (Finite 0))) of
        Inl e \<Rightarrow> Inl e
      | Inr prev_marks \<Rightarrow>
          Inr (curr_completed - prev_completed, round2 (fsub curr_marks prev_marks))))))))"

text \<open>
  The loop over the categories. \<open>individual_changes\<close> is the dict being filled, from
  category to \<open>(completed_change, marks_change)\<close>. An exception leaves the loop (and
  the \<open>try\<close> block around it, which then reports an error in place of the changes).
\<close>

fun changes_loop ::
  "(string \<Rightarrow> pyfloat option) \<Rightarrow> (string \<Rightarrow> int option) \<Rightarrow> pyval \<Rightarrow> pyval \<Rightarrow> string list
     \<Rightarrow> (string \<rightharpoonup> int \<times> pyfloat) \<Rightarrow> pyerror + (string \<rightharpoonup> int \<times> pyfloat)" where
  "changes_loop s2f s2i curr_types prev_types [] individual_changes = Inr individual_changes"
| "changes_loop s2f s2i curr_types prev_types (category # rest) individual_changes =
     (case category_change s2f s2i curr_types prev_types category of
        Inl e \<Rightarrow> Inl e
      | Inr (completed_change, marks_change) \<Rightarrow>
          changes_loop s2f s2i curr_types prev_types rest
            (if completed_change \<noteq> 0 \<or> marks_change \<noteq> Finite 0
             then individual_changes(category \<mapsto> (completed_change, marks_change))
             else individual_changes))"

text \<open>
  The comparison of the selected district in \<open>analyze\<close>: what is stored under
  \<open>"change"\<close>. It stays \<open>None\<close> when there is no current snapshot, is a status when
  only the previous snapshot is missing, and is otherwise computed inside one \<open>try\<close>
  block, of which an exception makes it an error message.
\<close>

definition OLD_WORKS_SCORE_KEY :: string where
  "OLD_WORKS_SCORE_KEY = ''overall_old_work_score''"

definition OLD_WORKS_COUNT_KEY :: string where
  "OLD_WORKS_COUNT_KEY = ''total_work_count''"

definition TOTAL_WORK_COMPLETED_KEY :: string where
  "TOTAL_WORK_COMPLETED_KEY = ''total_work_completed''"

datatype district_changes =
  DistrictChanges (score_change: pyfloat) (count_change: int) (total_work_completed_change: int)
    (financial_marks_change: pyfloat) (individual_work_type_changes: "string \<rightharpoonup> int \<times> pyfloat")

datatype change =
    NoChange
  | ChangeStatus string
  | ChangeError string
  | Changes district_changes

text \<open>
  The body of the \<open>try\<close> block: the four changes of the district's own figures, then
  the loop over the categories. The first conversion that raises ends it.
\<close>

definition change_values ::
  "(string \<Rightarrow> pyfloat option) \<Rightarrow> (string \<Rightarrow> int option) \<Rightarrow> pyval \<Rightarrow> pyval
     \<Rightarrow> pyerror + district_changes" where
  "change_values s2f s2i curr_dist_data prev_dist_data =
     (case py_float s2f (safe_get curr_dist_data [OLD_WORKS_SCORE_KEY] (PFloat (Finite 0))) of
        Inl e \<Rightarrow> Inl e
      | Inr curr_score \<Rightarrow>
     (case py_float s2f (safe_get prev_dist_data [OLD_WORKS_SCORE_KEY] (PFloat (Finite 0))) of
        Inl e \<Rightarrow> Inl e
      | Inr prev_score \<Rightarrow>
     (case py_int s2i (safe_get curr_dist_data [OLD_WORKS_COUNT_KEY] (PInt 0)) of
        Inl e \<Rightarrow> Inl e
      | Inr curr_relevant_count \<Rightarrow>
     (case py_int s2i (safe_get prev_dist_data [OLD_WORKS_COUNT_KEY] (PInt 0)) of
        Inl e \<Rightarrow> Inl e
      | Inr prev_relevant_count \<Rightarrow>
     (case py_int s2i (safe_get curr_dist_data [TOTAL_WORK_COMPLETED_KEY] (PInt 0)) of
        Inl e \<Rightarrow> Inl e
      | Inr curr_completed_total \<Rightarrow>
     (case py_int s2i (safe_get prev_dist_data [TOTAL_WORK_COMPLETED_KEY] (PInt 0)) of
        Inl e \<Rightarrow> Inl e
      | Inr prev_completed_total \<Rightarrow>
     (case py_float s2f (safe_get curr_dist_data [''financial_progress_marks''] (PFloat (Finite 0))) of
        Inl e \<Rightarrow> Inl e
      | Inr curr_fin_marks \<Rightarrow>
     (case py_float s2f (safe_get prev_dist_data [''financial_progress_marks''] (PFloat (Finite 0))) of
        Inl e \<Rightarrow> Inl e
      | Inr prev_fin_marks \<Rightarrow>
     (case changes_loop s2f s2i
             (safe_get curr_dist_data [''individual_work_types''] (PDict []))
             (safe_get prev_dist_data [''individual_work_types''] (PDict []))
             OLD_NRM_TARGET_CATEGORIES Map.empty of
        Inl e \<Rightarrow> Inl e
      | Inr individual_changes \<Rightarrow>
          Inr (DistrictChanges
                 (round2 (fsub curr_score prev_score))
                 (curr_relevant_count - prev_relevant_count)
                 (curr_completed_total - prev_completed_total)
                 (round2 (fsub curr_fin_marks prev_fin_marks))
                 individual_changes))))))))))"

definition selected_district_change ::
  "(string \<Rightarrow> pyfloat option) \<Rightarrow> (string \<Rightarrow> int option) \<Rightarrow> pyval \<Rightarrow> pyval \<Rightarrow> change" where
  "selected_district_change s2f s2i curr_dist_data prev_dist_data =
     (if truthy curr_dist_data \<and> truthy prev_dist_data then
        (case change_values s2f s2i curr_dist_data prev_dist_data of
           Inl e \<Rightarrow>
             if caught e then ChangeError ''Could not calculate change due to data type issue.''
             else ChangeError ''Could not calculate change.''
         | Inr changes \<Rightarrow> Changes changes)
      else if truthy curr_dist_data \<and> \<not> truthy prev_dist_data then
        ChangeStatus ''Previous day data unavailable for district''
      else NoChange)"

subsection \<open>The deltas of a category\<close>

text \<open>
  What the change map is compared with, read off the two snapshots directly. The
  figures of a category are the dict stored under its name in the snapshot's
  \<open>individual_work_types\<close>; its completed count is the int under \<open>completed\<close> and its
  marks are the number under \<open>marks\<close>, as a float; each is zero where there is none.
  The completed delta is the difference of the two counts. The marks delta is the
  difference of the two marks as floats, rounded to two decimals, the form in which it
  is reported.
\<close>

definition category_figures :: "pyval \<Rightarrow> string \<Rightarrow> pydict" where
  "category_figures snapshot category =
     (case snapshot of
        PDict kvs \<Rightarrow>
          (case map_of kvs ''individual_work_types'' of
             Some (PDict types) \<Rightarrow>
               (case map_of types category of Some (PDict figures) \<Rightarrow> figures | _ \<Rightarrow> [])
           | _ \<Rightarrow> [])
      | _ \<Rightarrow> [])"

definition completed_count :: "pyval \<Rightarrow> string \<Rightarrow> int" where
  "completed_count snapshot category =
     (case map_of (category_figures snapshot category) ''completed'' of
        Some (PInt n) \<Rightarrow> n
      | _ \<Rightarrow> 0)"

definition category_marks :: "pyval \<Rightarrow> string \<Rightarrow> pyfloat" where
  "category_marks snapshot category =
     (case map_of (category_figures snapshot category) ''marks'' of
        Some (PFloat f) \<Rightarrow> f
      | Some (PInt n) \<Rightarrow> round_double (of_int n)
      | _ \<Rightarrow> Finite 0)"

definition completed_delta :: "pyval \<Rightarrow> pyval \<Rightarrow> string \<Rightarrow> int" where
  "completed_delta curr_snapshot prev_snapshot category =
     completed_count curr_snapshot category - completed_count prev_snapshot category"

definition marks_delta :: "pyval \<Rightarrow> pyval \<Rightarrow> string \<Rightarrow> pyfloat" where
  "marks_delta curr_snapshot prev_snapshot category =
     round2 (fsub (category_marks curr_snapshot category) (category_marks prev_snapshot category))"

text \<open>
  A snapshot as \<open>process_district_perf_data\<close> builds it, as far as the comparison reads
  it: a non-empty dict; its score and its financial marks are floats (or ints that
  convert, or absent), its two counts are ints (or absent); its work types are a dict
  (or absent), in which the completed count of a category is an int (or absent) and its
  marks are a float other than NaN (or an int that converts, or absent).
\<close>

fun float_field :: "pyval \<Rightarrow> bool" where
  "float_field PNone = True"
| "float_field (PFloat f) = True"
| "float_field (PInt n) = (\<bar>real_of_int n\<bar> < 2 ^ 1024 - 2 ^ 970)"
| "float_field _ = False"

fun int_field :: "pyval \<Rightarrow> bool" where
  "int_field PNone = True"
| "int_field (PInt n) = True"
| "int_field _ = False"

definition figures_ok :: "pyval \<Rightarrow> bool" where
  "figures_ok cat_data =
     (case cat_data of
        PDict figures \<Rightarrow>
          int_field (dict_get figures ''completed'' PNone) \<and>
          float_field (dict_get figures ''marks'' PNone) \<and>
          dict_get figures ''marks'' PNone \<noteq> PFloat NaN
      | _ \<Rightarrow> True)"

definition work_types_ok :: "pyval \<Rightarrow> bool" where
  "work_types_ok types =
     (case types of
        PNone \<Rightarrow> True
      | PDict d \<Rightarrow> list_all (\<lambda>category. figures_ok (dict_get d category PNone)) OLD_NRM_TARGET_CATEGORIES
      | _ \<Rightarrow> False)"

definition old_works_snapshot :: "pyval \<Rightarrow> bool" where
  "old_works_snapshot snapshot =
     (case snapshot of
        PDict kvs \<Rightarrow>
          kvs \<noteq> [] \<and>
          float_field (dict_get kvs OLD_WORKS_SCORE_KEY PNone) \<and>
          int_field (dict_get kvs OLD_WORKS_COUNT_KEY PNone) \<and>
          int_field (dict_get kvs TOTAL_WORK_COMPLETED_KEY PNone) \<and>
          float_field (dict_get kvs ''financial_progress_marks'' PNone) \<and>
          work_types_ok (dict_get kvs ''individual_work_types'' PNone)
      | _ \<Rightarrow> False)"

text \<open>
  Two snapshots of a district: one category unchanged, one with three more completed
  works, one whose marks alone went up by half a mark.
\<close>

definition snapshot_today :: pyval where
  "snapshot_today =
     PDict [(''name'', PStr ''A''),
       (''overall_old_work_score'', PFloat (Finite (15 / 2))),
       (''total_work_count'', PInt 20),
       (''total_work_completed'', PInt 14),
       (''financial_progress_marks'', PFloat (Finite (5 / 2))),
       (''individual_work_types'',
         PDict [(''Talab Nirman'', PDict [(''completed'', PInt 5), (''marks'', PFloat (Finite 2))]),
                (''Recharge Pit'', PDict [(''completed'', PInt 7), (''marks'', PFloat (Finite (3 / 2)))]),
                (''Khet Talab'', PDict [(''completed'', PInt 2), (''marks'', PFloat (Finite 2))])])]"

definition snapshot_yesterday :: pyval where
  "snapshot_yesterday =
     PDict [(''name'', PStr ''A''),
       (''overall_old_work_score'', PFloat (Finite 7)),
       (''total_work_count'', PInt 20),
       (''total_work_completed'', PInt 11),
       (''financial_progress_marks'', PFloat (Finite (5 / 2))),
       (''individual_work_types'',
         PDict [(''Talab Nirman'', PDict [(''completed'', PInt 5), (''marks'', PFloat (Finite 2))]),
                (''Recharge Pit'', PDict [(''completed'', PInt 4), (''marks'', PFloat (Finite (3 / 2)))]),
                (''Khet Talab'', PDict [(''completed'', PInt 2), (''marks'', PFloat (Finite (3 / 2)))])])]"

section \<open>analyze\_farm\_ponds.py\<close>

definition SCORE_KEY :: string where
  "SCORE_KEY = ''marks''"

definition COUNT_KEY :: string where
  "COUNT_KEY = ''actual_count''"

definition NAME_KEY :: string where
  "NAME_KEY = ''name''"

subsection \<open>String methods\<close>

text \<open>
  \<open>str.strip()\<close>, \<open>str.lower()\<close> and \<open>str.upper()\<close> on ASCII text: the white space
  is the ASCII white space of \<open>str.isspace\<close>, and only the letters a to z change case.
\<close>

definition ascii_space :: "char list" where
  "ascii_space =
     [CHR 0x09, CHR 0x0A, CHR 0x0B, CHR 0x0C, CHR 0x0D, CHR 0x1C, CHR 0x1D, CHR 0x1E, CHR 0x1F,
      CHR 0x20]"

definition py_strip :: "string \<Rightarrow> string" where
  "py_strip s =
     rev (dropWhile (\<lambda>c. c \<in> set ascii_space) (rev (dropWhile (\<lambda>c. c \<in> set ascii_space) s)))"

definition lower_letters :: string where
  "lower_letters = ''abcdefghijklmnopqrstuvwxyz''"

definition upper_letters :: string where
  "upper_letters = ''ABCDEFGHIJKLMNOPQRSTUVWXYZ''"

definition py_upper :: "string \<Rightarrow> string" where
  "py_upper s =
     map (\<lambda>c. case map_of (zip lower_letters upper_letters) c of None \<Rightarrow> c | Some u \<Rightarrow> u) s"

definition py_lower :: "string \<Rightarrow> string" where
  "py_lower s =
     map (\<lambda>c. case map_of (zip upper_letters lower_letters) c of None \<Rightarrow> c | Some l \<Rightarrow> l) s"

subsection \<open>\<open>process_component_data\<close>\<close>

text \<open>
  The three guarded conversions. Each \<open>except\<close> clause names \<open>ValueError\<close> and
  \<open>TypeError\<close>; an \<open>OverflowError\<close> (an int too large for \<open>float()\<close>, an infinity
  given to \<open>int()\<close>) leaves the function.
\<close>

definition convert_score :: "(string \<Rightarrow> pyfloat option) \<Rightarrow> pyval \<Rightarrow> pyerror + pyfloat" where
  "convert_score s2f data =
     (case py_float s2f (safe_get data [SCORE_KEY] (PFloat (Finite 0))) of
        Inl e \<Rightarrow> if caught e then Inr (Finite 0) else Inl e
      | Inr score \<Rightarrow> Inr score)"

definition convert_count :: "(string \<Rightarrow> int option) \<Rightarrow> pyval \<Rightarrow> pyerror + int" where
  "convert_count s2i data =
     (case py_int s2i (safe_get data [COUNT_KEY] (PInt 0)) of
        Inl e \<Rightarrow> if caught e then Inr 0 else Inl e
      | Inr cnt \<Rightarrow> Inr cnt)"

definition convert_target :: "(string \<Rightarrow> int option) \<Rightarrow> pyval \<Rightarrow> pyerror + pyval" where
  "convert_target s2i data =
     (let target_raw = safe_get data [''target''] PNone
      in if target_raw \<noteq> PNone then
           (case py_int s2i target_raw of
              Inl e \<Rightarrow> if caught e then Inr (PStr ''N/A'') else Inl e
            | Inr target \<Rightarrow> Inr (PInt target))
         else Inr (PStr ''N/A''))"

text \<open>
  The achievement percentage. \<open>math.isinf\<close> converts an int to float first;
  \<open>round(x, 2)\<close> leaves an int as it is.
\<close>

definition process_achievement :: "(string \<Rightarrow> pyfloat option) \<Rightarrow> pyval \<Rightarrow> pyerror + pyval" where
  "process_achievement s2f ach_perc_raw =
     (case as_num ach_perc_raw of
        Some n \<Rightarrow>
          (case num_to_float n of
             Inl e \<Rightarrow> Inl e
           | Inr f \<Rightarrow>
               if isinf f then Inr (PStr ''Inf'')
               else Inr (case n of NInt k \<Rightarrow> PInt k | NFloat g \<Rightarrow> PFloat (round2 g)))
      | None \<Rightarrow>
          (case ach_perc_raw of
             PStr s \<Rightarrow>
               (case s2f s of
                  Some num_val \<Rightarrow>
                    if isinf num_val then Inr (PStr ''Inf'') else Inr (PFloat (round2 num_val))
                | None \<Rightarrow>
                    if py_lower (py_strip s) = ''inf'' then Inr (PStr ''Inf'')
                    else Inr (PStr ''N/A''))
           | _ \<Rightarrow> Inr (PStr ''N/A'')))"

definition process_component_data ::
  "(string \<Rightarrow> pyfloat option) \<Rightarrow> (string \<Rightarrow> int option) \<Rightarrow> pyval \<Rightarrow> pyerror + pydict option" where
  "process_component_data s2f s2i data =
     (if \<not> truthy data then Inr None
      else
        case convert_score s2f data of
          Inl e \<Rightarrow> Inl e
        | Inr score \<Rightarrow>
       (case convert_count s2i data of
          Inl e \<Rightarrow> Inl e
        | Inr cnt \<Rightarrow>
       (case convert_target s2i data of
          Inl e \<Rightarrow> Inl e
        | Inr target \<Rightarrow>
       (case process_achievement s2f (safe_get data [''achievement_percentage''] PNone) of
          Inl e \<Rightarrow> Inl e
        | Inr ach_perc_processed \<Rightarrow>
            Inr (Some [(''name'', safe_get data [NAME_KEY] PNone),
                       (COUNT_KEY, PInt cnt),
                       (SCORE_KEY, PFloat (round2 score)),
                       (''target'', target),
                       (''achievement_percentage'', ach_perc_processed)])))))"

subsection \<open>The lists of \<open>_fetch_and_process_data_for_date\<close>\<close>

text \<open>
  The state-level loop: \<open>if processed:\<close> appends every record that was processed
  (the result is a non-empty dict, or \<open>None\<close>).
\<close>

fun state_results_processed ::
  "(string \<Rightarrow> pyfloat option) \<Rightarrow> (string \<Rightarrow> int option) \<Rightarrow> pyval list \<Rightarrow> pyerror + pydict list" where
  "state_results_processed s2f s2i [] = Inr []"
| "state_results_processed s2f s2i (district_raw # rest) =
     (case process_component_data s2f s2i district_raw of
        Inl e \<Rightarrow> Inl e
      | Inr processed \<Rightarrow>
          (case state_results_processed s2f s2i rest of
             Inl e \<Rightarrow> Inl e
           | Inr results \<Rightarrow>
               Inr (case processed of None \<Rightarrow> results | Some p \<Rightarrow> p # results)))"

text \<open>
  A processed record with its count, when it passes the test
  \<open>processed and processed.get("name")\<close> of the block and panchayat loops. The count is
  kept beside the record for the sort by \<open>x[COUNT_KEY]\<close>.
\<close>

definition named_entry ::
  "(string \<Rightarrow> pyfloat option) \<Rightarrow> (string \<Rightarrow> int option) \<Rightarrow> pyval \<Rightarrow> pyerror + (int \<times> pydict) option" where
  "named_entry s2f s2i raw =
     (case process_component_data s2f s2i raw of
        Inl e \<Rightarrow> Inl e
      | Inr None \<Rightarrow> Inr None
      | Inr (Some p) \<Rightarrow>
          if truthy (dict_get p ''name'' PNone) then
            (case dict_get p COUNT_KEY PNone of PInt cnt \<Rightarrow> Inr (Some (cnt, p)) | _ \<Rightarrow> Inl TypeError)
          else Inr None)"

text \<open>The panchayat loop of one block, its sort by count (descending) and the cut to five.\<close>

fun panchayat_entries ::
  "(string \<Rightarrow> pyfloat option) \<Rightarrow> (string \<Rightarrow> int option) \<Rightarrow> pyval list \<Rightarrow> pyerror + (int \<times> pydict) list" where
  "panchayat_entries s2f s2i [] = Inr []"
| "panchayat_entries s2f s2i (panchayat # rest) =
     (case named_entry s2f s2i panchayat of
        Inl e \<Rightarrow> Inl e
      | Inr entry \<Rightarrow>
          (case panchayat_entries s2f s2i rest of
             Inl e \<Rightarrow> Inl e
           | Inr entries \<Rightarrow>
               Inr (case entry of
                      None \<Rightarrow> entries
                    | Some (cnt, p) \<Rightarrow>
                        (cnt, [(''name'', dict_get p ''name'' PNone), (COUNT_KEY, PInt cnt)]) # entries)))"

definition top_5_panchayats ::
  "(string \<Rightarrow> pyfloat option) \<Rightarrow> (string \<Rightarrow> int option) \<Rightarrow> pyval list \<Rightarrow> pyerror + pydict list" where
  "top_5_panchayats s2f s2i panchayat_results_raw =
     (case panchayat_entries s2f s2i panchayat_results_raw of
        Inl e \<Rightarrow> Inl e
      | Inr entries \<Rightarrow> Inr (take 5 (map snd (py_sort fst True entries))))"

text \<open>
  The block loop. \<open>fetch\<close> stands for the request of a block's panchayats: it gives the
  list under \<open>"results"\<close> for a block name, empty when there is none.
\<close>

fun block_entries ::
  "(string \<Rightarrow> pyfloat option) \<Rightarrow> (string \<Rightarrow> int option) \<Rightarrow> (pyval \<Rightarrow> pyval list) \<Rightarrow> pyval list
     \<Rightarrow> pyerror + (int \<times> pydict) list" where
  "block_entries s2f s2i fetch [] = Inr []"
| "block_entries s2f s2i fetch (block_data # rest) =
     (case named_entry s2f s2i block_data of
        Inl e \<Rightarrow> Inl e
      | Inr None \<Rightarrow> block_entries s2f s2i fetch rest
      | Inr (Some (cnt, block_processed)) \<Rightarrow>
          (let block_name = dict_get block_processed ''name'' PNone in
           case top_5_panchayats s2f s2i (fetch block_name) of
             Inl e \<Rightarrow> Inl e
           | Inr top5 \<Rightarrow>
               (case block_entries s2f s2i fetch rest of
                  Inl e \<Rightarrow> Inl e
                | Inr entries \<Rightarrow>
                    Inr ((cnt,
                          [(''name'', block_name),
                           (COUNT_KEY, PInt cnt),
                           (SCORE_KEY, dict_get block_processed SCORE_KEY PNone),
                           (''top_5_panchayats'', PList (map PDict top5))]) # entries))))"

definition block_level_data ::
  "(string \<Rightarrow> pyfloat option) \<Rightarrow> (string \<Rightarrow> int option) \<Rightarrow> (pyval \<Rightarrow> pyval list) \<Rightarrow> pyval list
     \<Rightarrow> pyerror + pydict list" where
  "block_level_data s2f s2i fetch block_results_raw =
     (case block_entries s2f s2i fetch block_results_raw of
        Inl e \<Rightarrow> Inl e
      | Inr entries \<Rightarrow> Inr (map snd (py_sort fst True entries)))"

text \<open>The raw name of a record, and the names of a list of processed records.\<close>

definition raw_name :: "pyval \<Rightarrow> pyval" where
  "raw_name raw = safe_get raw [NAME_KEY] PNone"

definition names_of :: "pydict list \<Rightarrow> pyval list" where
  "names_of records = map (\<lambda>p. dict_get p ''name'' PNone) records"

text \<open>Three raw blocks: one named with spaces and in lower case, one without a name, one with an empty name; and a fetch that finds no panchayats.\<close>

definition raw_bhopal :: pyval where
  "raw_bhopal = PDict [(''name'', PStr '' bhopal ''), (''actual_count'', PInt 3), (''marks'', PFloat (Finite 2))]"

definition raw_unnamed :: pyval where
  "raw_unnamed = PDict [(''actual_count'', PInt 9), (''marks'', PFloat (Finite 1))]"

definition raw_empty_name :: pyval where
  "raw_empty_name = PDict [(''name'', PStr ''''), (''actual_count'', PInt 4)]"

definition no_panchayats :: "pyval \<Rightarrow> pyval list" where
  "no_panchayats block_name = []"

section \<open>Lemmas\<close>

lemma bit_length_numeral:
  "bit_length 0 = 0"
  "bit_length 1 = 1"
  "bit_length (numeral k) = 1 + bit_length (numeral k div 2)"
  "bit_length (- numeral k) = 0"
  by (simp_all add: bit_length.simps)

lemmas double_eval =
  round_double_def ulp_exp_def ilog2_def bit_length_numeral pow2_def round_half_even_def
  ceiling_def


text \<open>The rounding agrees with the floats Python prints for \<open>0.1\<close>, \<open>0.7\<close> and \<open>2 ** 53 + 1\<close>.\<close>

lemma round_double_tenth: "round_double (1 / 10) = Finite (3602879701896397 / 36028797018963968)"
  by (simp add: double_eval)

lemma lit_0_7_rounded: "round_double (7 / 10) = lit_0_7"
  by (simp add: lit_0_7_def double_eval)

lemma round_double_ties_even: "round_double (2 ^ 53 + 1) = Finite (2 ^ 53)"
  by (simp add: double_eval)

section \<open>Rank delta\<close>

text \<open>
  C8. The rank delta is null as soon as one of the two ranks is null; for two integer
  ranks it is the previous rank minus the current one, so it is positive exactly when
  the rank number went down (an improvement).
\<close>

theorem rank_change_spec:
  "(current_rank = PNone \<or> previous_rank = PNone \<longrightarrow>
      calculate_rank_change s2i current_rank previous_rank = Inr PNone) \<and>
   calculate_rank_change s2i (PInt c) (PInt p) = Inr (PInt (p - c)) \<and>
   (0 < p - c \<longleftrightarrow> c < p)"
  by (auto simp: calculate_rank_change_def)

theorem rank_change_spec_witness:
  "calculate_rank_change no_parse PNone (PInt 3) = Inr PNone \<and>
   calculate_rank_change no_parse (PInt 5) (PInt 3) = Inr (PInt (- 2))"
  using rank_change_spec [where current_rank = PNone and previous_rank = "PInt 3"
      and s2i = no_parse and c = 5 and p = 3]
  by simp

section \<open>Grades\<close>

text \<open>Each of the two grade functions is the shared decision followed by its own naming.\<close>

lemma label_fallback:
  "(case percentage v m of
      Inl e \<Rightarrow> Inl e
    | Inr pct \<Rightarrow>
        if num_ge (NFloat pct) (NInt 90) then Inr label_excellent
        else if num_ge (NFloat pct) (NInt 70) then Inr label_good
        else if num_ge (NFloat pct) (NInt 50) then Inr label_average
        else if num_ge (NFloat pct) (NInt 30) then Inr label_poor
        else Inr label_very_poor) = map_sum id label_of (band_by_percentage v m)"
  by (simp add: band_by_percentage_def split: sum.split)

lemma label_stats:
  "(case mul_by_float avg lit_1_25 of
      Inl e \<Rightarrow> Inl e
    | Inr t1 \<Rightarrow>
        if num_ge v (NFloat t1) then Inr label_excellent
        else
          (case ge_val v avg of
             Inl e \<Rightarrow> Inl e
           | Inr c2 \<Rightarrow>
               if c2 then Inr label_good
               else
                 (case ge_val v median of
                    Inl e \<Rightarrow> Inl e
                  | Inr c3 \<Rightarrow>
                      if c3 then Inr label_average
                      else
                        (case mul_by_float median lit_0_7 of
                           Inl e \<Rightarrow> Inl e
                         | Inr t4 \<Rightarrow>
                             if num_ge v (NFloat t4) then Inr label_poor
                             else Inr label_very_poor)))) = map_sum id label_of (band_by_stats v avg median)"
  by (simp add: band_by_stats_def split: sum.split)

lemma label_as_band:
  "get_grade_label value max_value state_stats =
     map_sum id label_of (grade_band value max_value state_stats)"
proof (cases "as_num value")
  case None
  then show ?thesis by (simp add: get_grade_label_def grade_band_def)
next
  case (Some v)
  note v = this
  show ?thesis
  proof (cases "as_num max_value")
    case None
    with v show ?thesis by (simp add: get_grade_label_def grade_band_def)
  next
    case (Some m)
    with v show ?thesis
      unfolding get_grade_label_def grade_band_def Let_def label_fallback label_stats
      by (cases state_stats) (simp_all add: uses_stats_def stat_of_def)
  qed
qed

lemma class_fallback:
  "(case percentage v m of
      Inl e \<Rightarrow> Inl e
    | Inr pct \<Rightarrow>
        if num_ge (NFloat pct) (NInt 90) then Inr ''grade-badge excellent''
        else if num_ge (NFloat pct) (NInt 70) then Inr ''grade-badge good''
        else if num_ge (NFloat pct) (NInt 50) then Inr ''grade-badge average''
        else if num_ge (NFloat pct) (NInt 30) then Inr ''grade-badge poor''
        else Inr ''grade-badge very-poor'') = map_sum id class_of (band_by_percentage v m)"
  by (simp add: band_by_percentage_def split: sum.split)

lemma class_stats:
  "(case mul_by_float avg lit_1_25 of
      Inl e \<Rightarrow> Inl e
    | Inr t1 \<Rightarrow>
        if num_ge v (NFloat t1) then Inr ''grade-badge excellent''
        else
          (case ge_val v avg of
             Inl e \<Rightarrow> Inl e
           | Inr c2 \<Rightarrow>
               if c2 then Inr ''grade-badge good''
               else
                 (case ge_val v median of
                    Inl e \<Rightarrow> Inl e
                  | Inr c3 \<Rightarrow>
                      if c3 then Inr ''grade-badge average''
                      else
                        (case mul_by_float median lit_0_7 of
                           Inl e \<Rightarrow> Inl e
                         | Inr t4 \<Rightarrow>
                             if num_ge v (NFloat t4) then Inr ''grade-badge poor''
                             else Inr ''grade-badge very-poor'')))) = map_sum id class_of (band_by_stats v avg median)"
  by (simp add: band_by_stats_def split: sum.split)

lemma class_as_band:
  "get_grade_class value max_value state_stats =
     map_sum id class_of (grade_band value max_value state_stats)"
proof (cases "as_num value")
  case None
  then show ?thesis by (simp add: get_grade_class_def grade_band_def)
next
  case (Some v)
  note v = this
  show ?thesis
  proof (cases "as_num max_value")
    case None
    with v show ?thesis by (simp add: get_grade_class_def grade_band_def)
  next
    case (Some m)
    with v show ?thesis
      unfolding get_grade_class_def grade_band_def Let_def class_fallback class_stats
      by (cases state_stats) (simp_all add: uses_stats_def stat_of_def)
  qed
qed

lemma label_of_inject: "label_of a = label_of b \<longleftrightarrow> a = b"
  by (cases a rule: label_of.cases; cases b rule: label_of.cases)
     (simp_all add: label_excellent_def label_good_def label_average_def label_poor_def
        label_very_poor_def)

lemma class_of_inject: "class_of a = class_of b \<longleftrightarrow> a = b"
  by (cases a rule: class_of.cases; cases b rule: class_of.cases) simp_all

lemma band_names_agree:
  "map_sum id label_of r = Inr (label_of b) \<longleftrightarrow> map_sum id class_of r = Inr (class_of b)"
  by (cases r) (simp_all add: label_of_inject class_of_inject)

lemma band_errors_agree:
  "map_sum id label_of r = Inl e \<longleftrightarrow> map_sum id class_of r = Inl e"
  by (cases r) simp_all

lemma int_to_float_100: "int_to_float 100 = Inr (Finite 100)"
  by (simp add: int_to_float_def double_eval)

lemma percentage_95: "percentage (NInt 95) (NInt 100) = Inr (Finite 95)"
  by (simp add: percentage_def py_truediv_def num_eq_def int_to_float_100 double_eval)

text \<open>
  C10. The two grade functions agree on every input: the label is one of the five Hindi
  grades exactly when the class is the matching \<open>grade-badge\<close> class, the label is
  ``N/A'' exactly when the class is the bare \<open>grade-badge\<close>, and one raises exactly
  when the other raises the same exception.
\<close>

theorem grade_label_class_agree:
  "(get_grade_label value max_value state_stats = Inr label_excellent \<longleftrightarrow>
      get_grade_class value max_value state_stats = Inr ''grade-badge excellent'') \<and>
   (get_grade_label value max_value state_stats = Inr label_good \<longleftrightarrow>
      get_grade_class value max_value state_stats = Inr ''grade-badge good'') \<and>
   (get_grade_label value max_value state_stats = Inr label_average \<longleftrightarrow>
      get_grade_class value max_value state_stats = Inr ''grade-badge average'') \<and>
   (get_grade_label value max_value state_stats = Inr label_poor \<longleftrightarrow>
      get_grade_class value max_value state_stats = Inr ''grade-badge poor'') \<and>
   (get_grade_label value max_value state_stats = Inr label_very_poor \<longleftrightarrow>
      get_grade_class value max_value state_stats = Inr ''grade-badge very-poor'') \<and>
   (get_grade_label value max_value state_stats = Inr ''N/A'' \<longleftrightarrow>
      get_grade_class value max_value state_stats = Inr ''grade-badge'') \<and>
   (get_grade_label value max_value state_stats = Inl e \<longleftrightarrow>
      get_grade_class value max_value state_stats = Inl e)"
  unfolding label_as_band class_as_band
  using band_names_agree [of "grade_band value max_value state_stats" "Some Excellent"]
    band_names_agree [of "grade_band value max_value state_stats" "Some Good"]
    band_names_agree [of "grade_band value max_value state_stats" "Some Average"]
    band_names_agree [of "grade_band value max_value state_stats" "Some Poor"]
    band_names_agree [of "grade_band value max_value state_stats" "Some VeryPoor"]
    band_names_agree [of "grade_band value max_value state_stats" None]
    band_errors_agree [of "grade_band value max_value state_stats" e]
  by simp

theorem grade_label_class_agree_witness:
  "get_grade_label (PInt 95) (PInt 100) PNone = Inr label_excellent \<and>
   get_grade_class (PInt 95) (PInt 100) PNone = Inr ''grade-badge excellent''"
  using grade_label_class_agree [of "PInt 95" "PInt 100" PNone]
  by (simp add: get_grade_label_def percentage_95 num_eq_def num_ge_def)

lemma int_to_float_in_range:
  "\<bar>real_of_int k\<bar> < 2 ^ 1024 - 2 ^ 970 \<Longrightarrow> int_to_float k = Inr (round_double (of_int k))"
  by (simp add: int_to_float_def round_double_def)

lemma num_to_float_in_range:
  "as_num x = Some n \<Longrightarrow> in_float_range x \<Longrightarrow> num_to_float n = Inr (to_float n)"
  by (cases n) (simp_all add: in_float_range_def to_float_def int_to_float_in_range)












section \<open>Day-over-day delta\<close>

lemma safe_convert_float_cases:
  assumes "safe_convert s2f s2i v TFloat PNone = Inr c"
  shows "c = PNone \<or> (\<exists>a. c = PFloat (Finite a))"
proof (cases "v = PNone")
  case True
  with assms show ?thesis by (simp add: safe_convert_def)
next
  case False
  show ?thesis
  proof (cases "py_float s2f v")
    case (Inl e)
    with assms False show ?thesis by (simp add: safe_convert_def split: if_splits)
  next
    case (Inr f)
    with assms False show ?thesis
      by (cases f) (auto simp: safe_convert_def isnan_def isinf_def split: if_splits)
  qed
qed

text \<open>When the coercion gives null: a null input, a caught conversion error, NaN or an infinity.\<close>

lemma safe_convert_float_None:
  "safe_convert s2f s2i v TFloat PNone = Inr PNone \<longleftrightarrow>
     v = PNone \<or> py_float s2f v = Inl ValueError \<or> py_float s2f v = Inl TypeError \<or>
     py_float s2f v = Inr NaN \<or> py_float s2f v = Inr PosInf \<or> py_float s2f v = Inr NegInf"
  by (cases "py_float s2f v")
     (auto simp: safe_convert_def caught_def isnan_def isinf_def split: if_splits)

lemma truncate_whole: "a = of_int (truncate a) \<longleftrightarrow> a \<in> \<int>"
  by (auto simp: truncate_def Ints_def)

lemma truncate_Ints: "a \<in> \<int> \<Longrightarrow> truncate a = \<lfloor>a\<rfloor>"
  by (auto simp: truncate_def Ints_def)

text \<open>
  C5, as amended. When neither conversion raises (no int beyond the float range), the
  delta is null as soon as one input fails the coercion to a finite float (it is null,
  not convertible, NaN or infinite), and also when the float difference itself is not
  finite; otherwise it is the float difference \<open>current - previous\<close>, as an int when
  it is a whole number and rounded to two decimals when it is not.
\<close>

theorem calculate_change_spec:
  assumes "safe_convert s2f s2i current_val TFloat PNone = Inr c"
    and "safe_convert s2f s2i previous_val TFloat PNone = Inr p"
  shows "(c = PNone \<or> p = PNone \<longrightarrow>
            calculate_change s2f s2i current_val previous_val = Inr PNone) \<and>
         (\<forall>a b. c = PFloat (Finite a) \<and> p = PFloat (Finite b) \<longrightarrow>
            calculate_change s2f s2i current_val previous_val =
              Inr (case fsub (Finite a) (Finite b) of
                     Finite d \<Rightarrow> if d \<in> \<int> then PInt \<lfloor>d\<rfloor> else PFloat (round2 (Finite d))
                   | _ \<Rightarrow> PNone)) \<and>
         (c = PNone \<or> (\<exists>a. c = PFloat (Finite a))) \<and>
         (p = PNone \<or> (\<exists>b. p = PFloat (Finite b)))"
  using assms safe_convert_float_cases [OF assms(1)] safe_convert_float_cases [OF assms(2)]
  by (auto simp: calculate_change_def truncate_whole truncate_Ints split: pyfloat.splits)

lemma int_to_float_12: "int_to_float 12 = Inr (Finite 12)"
  by (simp add: int_to_float_def double_eval)

lemma int_to_float_10: "int_to_float 10 = Inr (Finite 10)"
  by (simp add: int_to_float_def double_eval)

lemma fsub_12_10: "fsub (Finite 12) (Finite 10) = Finite 2"
  by (simp add: fsub_def double_eval)

lemma fsub_10_12: "fsub (Finite 10) (Finite 12) = Finite (- 2)"
  by (simp add: fsub_def double_eval)

theorem calculate_change_spec_witness:
  "safe_convert no_parse no_parse (PInt 12) TFloat PNone = Inr (PFloat (Finite 12)) \<and>
   safe_convert no_parse no_parse (PInt 10) TFloat PNone = Inr (PFloat (Finite 10)) \<and>
   safe_convert no_parse no_parse PNone TFloat PNone = Inr PNone \<and>
   calculate_change no_parse no_parse (PInt 12) (PInt 10) = Inr (PInt 2) \<and>
   calculate_change no_parse no_parse (PInt 10) (PInt 12) = Inr (PInt (- 2)) \<and>
   calculate_change no_parse no_parse (PInt 12) PNone = Inr PNone \<and>
   calculate_change no_parse no_parse PNone (PInt 10) = Inr PNone"
proof -
  have h: "safe_convert no_parse no_parse (PInt 12) TFloat PNone = Inr (PFloat (Finite 12))"
    "safe_convert no_parse no_parse (PInt 10) TFloat PNone = Inr (PFloat (Finite 10))"
    "safe_convert no_parse no_parse PNone TFloat PNone = Inr PNone"
    by (simp_all add: safe_convert_def int_to_float_12 int_to_float_10 isnan_def isinf_def)
  show ?thesis
    using h calculate_change_spec [OF h(1) h(2)] calculate_change_spec [OF h(2) h(1)]
      calculate_change_spec [OF h(1) h(3)] calculate_change_spec [OF h(3) h(2)]
    by (simp add: fsub_12_10 fsub_10_12)
qed

text \<open>
  The claim as first stated fails: both inputs below coerce to finite floats, yet the
  result is null and not their difference, because the difference overflows and the
  function guards against a non-finite change.
\<close>

lemma two_1023_overflow: "fsub (Finite two_1023) (Finite (- two_1023)) = PosInf"
  by (simp add: fsub_def round_double_def two_1023_def)

theorem calculate_change_counterexample:
  "safe_convert no_parse no_parse (PFloat (Finite two_1023)) TFloat PNone
     = Inr (PFloat (Finite two_1023)) \<and>
   safe_convert no_parse no_parse (PFloat (Finite (- two_1023))) TFloat PNone
     = Inr (PFloat (Finite (- two_1023))) \<and>
   calculate_change no_parse no_parse (PFloat (Finite two_1023))
     (PFloat (Finite (- two_1023))) = Inr PNone"
proof -
  have h: "safe_convert no_parse no_parse (PFloat (Finite two_1023)) TFloat PNone
     = Inr (PFloat (Finite two_1023))"
   "safe_convert no_parse no_parse (PFloat (Finite (- two_1023))) TFloat PNone
     = Inr (PFloat (Finite (- two_1023)))"
    by (simp_all add: safe_convert_def isnan_def isinf_def)
  show ?thesis
    unfolding calculate_change_def h
    by (simp add: two_1023_overflow)
qed

section \<open>Top and bottom performers\<close>

lemma valid_entry_kept:
  "valid_entry field_key nested_keys name_key item =
     (if is_kept field_key nested_keys name_key item
      then Some (item, the (compared field_key nested_keys item)) else None)"
  by (auto simp: valid_entry_def is_kept_def compared_def Let_def split: option.splits)

lemma valid_entries_kept:
  "List.map_filter (valid_entry field_key nested_keys name_key) items =
     map (\<lambda>item. (item, the (compared field_key nested_keys item)))
       (filter (is_kept field_key nested_keys name_key) items)"
  by (induction items) (simp_all add: valid_entry_kept)

lemma sorted_hd_last:
  assumes "sorted (map f ys)" "x \<in> set ys"
  shows "f (hd ys) \<le> f x" and "f x \<le> f (last ys)"
proof -
  from assms(2) have ne: "ys \<noteq> []" by auto
  from assms(2) obtain i where i: "i < length ys" "ys ! i = x" by (auto simp: in_set_conv_nth)
  have "map f ys ! 0 \<le> map f ys ! i"
    by (rule sorted_nth_mono [OF assms(1)]) (use i in auto)
  with i ne show "f (hd ys) \<le> f x" by (simp add: hd_conv_nth)
  have "map f ys ! i \<le> map f ys ! (length ys - 1)"
    by (rule sorted_nth_mono [OF assms(1)]) (use i in auto)
  with i ne show "f x \<le> f (last ys)" by (simp add: last_conv_nth)
qed

lemma py_sort_set [simp]: "set (py_sort key reverse xs) = set xs"
  by (simp add: py_sort_def)

lemma py_sort_Nil [simp]: "py_sort key reverse xs = [] \<longleftrightarrow> xs = []"
  by (auto simp: py_sort_def dest: arg_cong [where f = length])

lemma py_sort_extremes:
  assumes "x \<in> set xs"
  shows "if reverse
         then key x \<le> key (hd (py_sort key reverse xs)) \<and> key (last (py_sort key reverse xs)) \<le> key x
         else key (hd (py_sort key reverse xs)) \<le> key x \<and> key x \<le> key (last (py_sort key reverse xs))"
proof (cases reverse)
  case True
  let ?ys = "sort_key key (rev xs)"
  have s: "sorted (map key ?ys)" and m: "x \<in> set ?ys" using assms by simp_all
  from m have ne: "?ys \<noteq> []" by (metis empty_iff empty_set)
  from sorted_hd_last [OF s m] True ne show ?thesis
    by (simp add: py_sort_def hd_rev last_rev)
next
  case False
  let ?ys = "sort_key key xs"
  have s: "sorted (map key ?ys)" and m: "x \<in> set ?ys" using assms by simp_all
  from sorted_hd_last [OF s m] False show ?thesis
    by (simp add: py_sort_def)
qed

lemma hd_last_in_set: "xs \<noteq> [] \<Longrightarrow> hd (py_sort key reverse xs) \<in> set xs \<and> last (py_sort key reverse xs) \<in> set xs"
  by (metis hd_in_set last_in_set py_sort_Nil py_sort_set)

lemma is_kept_iff:
  "is_kept field_key nested_keys name_key item \<longleftrightarrow>
     (\<exists>n. as_num (safe_get item (key_path nested_keys field_key) PNone) = Some n \<and> n \<noteq> NFloat NaN) \<and>
     truthy (safe_get item [name_key] PNone)"
proof -
  have "key_of_num n \<noteq> None \<longleftrightarrow> n \<noteq> NFloat NaN" for n
    by (cases n rule: key_of_num.cases) simp_all
  then show ?thesis
    by (auto simp: is_kept_def compared_def split: option.splits)
qed

text \<open>
  C3, as amended. The function keeps the records whose compared value is a number other
  than NaN (an infinity is kept) and whose name is present and non-empty. If no record
  survives, top and bottom are both null; otherwise both are records of the input list
  itself, complete as they came in, the top one with the best and the bottom one with the
  worst compared value among the survivors.
\<close>

theorem get_top_bottom_spec:
  fixes data_list field_key nested_keys name_key higher_is_better
  defines "kept \<equiv> filter (is_kept field_key nested_keys name_key) (items_of data_list)"
    and "result \<equiv> get_top_bottom_by_field data_list field_key nested_keys name_key higher_is_better"
  shows "(kept = [] \<longrightarrow> result = (None, None)) \<and>
         (kept \<noteq> [] \<longrightarrow>
            (\<exists>t b. result = (Some t, Some b) \<and> t \<in> set kept \<and> b \<in> set kept \<and>
               (\<forall>x \<in> set kept. \<forall>kx kt kb.
                  compared field_key nested_keys x = Some kx \<and>
                  compared field_key nested_keys t = Some kt \<and>
                  compared field_key nested_keys b = Some kb \<longrightarrow>
                  (if higher_is_better then kb \<le> kx \<and> kx \<le> kt else kt \<le> kx \<and> kx \<le> kb))))"
proof (intro conjI impI)
  assume "kept = []"
  then show "result = (None, None)"
    by (auto simp: result_def kept_def get_top_bottom_by_field_def items_of_def valid_entries_kept
        split: option.splits)
next
  assume ne: "kept \<noteq> []"
  define V where "V = map (\<lambda>item. (item, the (compared field_key nested_keys item))) kept"
  define S where "S = py_sort snd higher_is_better V"
  from ne have "items_of data_list \<noteq> []" by (auto simp: kept_def)
  then obtain items where items: "data_list = Some items" "items \<noteq> []"
    by (cases data_list) (simp_all add: items_of_def)
  have Vne: "V \<noteq> []" using ne by (simp add: V_def)
  have res: "result = (Some (fst (hd S)), Some (fst (last S)))"
    using items Vne
    by (simp add: result_def get_top_bottom_by_field_def valid_entries_kept S_def V_def kept_def
        items_of_def Let_def)
  have inV: "hd S \<in> set V" "last S \<in> set V"
    using hd_last_in_set [OF Vne, of snd higher_is_better] by (simp_all add: S_def)
  then have t: "fst (hd S) \<in> set kept" "snd (hd S) = the (compared field_key nested_keys (fst (hd S)))"
    and b: "fst (last S) \<in> set kept" "snd (last S) = the (compared field_key nested_keys (fst (last S)))"
    by (auto simp: V_def)
  have ord: "if higher_is_better
         then the (compared field_key nested_keys x) \<le> snd (hd S) \<and> snd (last S) \<le> the (compared field_key nested_keys x)
         else snd (hd S) \<le> the (compared field_key nested_keys x) \<and> the (compared field_key nested_keys x) \<le> snd (last S)"
    if "x \<in> set kept" for x
  proof -
    from that have "(x, the (compared field_key nested_keys x)) \<in> set V" by (auto simp: V_def)
    from py_sort_extremes [OF this, of higher_is_better snd] show ?thesis
      by (cases higher_is_better) (simp_all add: S_def)
  qed
  show "\<exists>t b. result = (Some t, Some b) \<and> t \<in> set kept \<and> b \<in> set kept \<and>
               (\<forall>x \<in> set kept. \<forall>kx kt kb.
                  compared field_key nested_keys x = Some kx \<and>
                  compared field_key nested_keys t = Some kt \<and>
                  compared field_key nested_keys b = Some kb \<longrightarrow>
                  (if higher_is_better then kb \<le> kx \<and> kx \<le> kt else kt \<le> kx \<and> kx \<le> kb))"
  proof (intro exI conjI ballI allI impI)
    show "result = (Some (fst (hd S)), Some (fst (last S)))" by (rule res)
    show "fst (hd S) \<in> set kept" "fst (last S) \<in> set kept" by (rule t(1), rule b(1))
  next
    fix x kx kt kb
    assume x: "x \<in> set kept"
      and k: "compared field_key nested_keys x = Some kx \<and>
              compared field_key nested_keys (fst (hd S)) = Some kt \<and>
              compared field_key nested_keys (fst (last S)) = Some kb"
    from ord [OF x] k t(2) b(2)
    show "if higher_is_better then kb \<le> kx \<and> kx \<le> kt else kt \<le> kx \<and> kx \<le> kb"
      by (cases higher_is_better) simp_all
  qed
qed

lemmas extrema_eval =
  get_top_bottom_by_field_def valid_entry_def key_path_def safe_get_def dict_get_def py_sort_def
  is_kept_def compared_def items_of_def rec_A_def rec_B_def rec_C_def rec_inf_def
  List.map_filter_simps Let_def

theorem get_top_bottom_spec_witness:
  "filter (is_kept ''score'' None ''name'') (items_of (Some [rec_A, rec_B, rec_C])) = [rec_A, rec_B, rec_C] \<and>
   get_top_bottom_by_field (Some [rec_A, rec_B, rec_C]) ''score'' None ''name'' True = (Some rec_A, Some rec_C) \<and>
   get_top_bottom_by_field (Some [rec_A, rec_B, rec_C]) ''count'' None ''name'' True = (Some rec_C, Some rec_B)"
  using get_top_bottom_spec [of "''score''" None "''name''" "Some [rec_A, rec_B, rec_C]" True]
  by (simp add: extrema_eval)

text \<open>
  The claim as first stated fails: the record with an infinite score is kept, and is
  returned as the top performer.
\<close>

theorem get_top_bottom_counterexample:
  "safe_get rec_inf [''score''] PNone = PFloat PosInf \<and>
   get_top_bottom_by_field (Some [rec_inf, rec_B]) ''score'' None ''name'' True = (Some rec_inf, Some rec_B)"
  by (simp add: extrema_eval)

section \<open>Ranking\<close>

lemma int_to_float_error: "int_to_float k = Inl e \<Longrightarrow> e = OverflowError"
  by (auto simp: int_to_float_def split: pyfloat.splits)

lemma num_to_float_error: "num_to_float n = Inl e \<Longrightarrow> e = OverflowError"
  by (cases n) (auto dest: int_to_float_error)

lemma valid_marks_error: "valid_marks v = Inl e \<Longrightarrow> e = OverflowError"
  by (auto simp: valid_marks_def split: option.splits sum.splits if_splits
      dest: num_to_float_error)

lemma valid_entries_eq:
  "valid_entries ds =
     (if \<exists>d \<in> set ds. marks_overflow d then Inl OverflowError
      else Inr (List.map_filter entry_of ds))"
proof (induction ds)
  case Nil
  then show ?case by (simp add: List.map_filter_simps)
next
  case (Cons d ds)
  show ?case
  proof (cases "valid_marks (dict_get d TOTAL_MARKS_KEY PNone)")
    case (Inl e)
    then have "e = OverflowError" by (rule valid_marks_error)
    with Inl show ?thesis by (simp add: marks_overflow_def)
  next
    case (Inr marks)
    then have "\<not> marks_overflow d"
      and "entry_of d = (case marks of None \<Rightarrow> None | Some k \<Rightarrow> Some (d, k))"
      by (simp_all add: marks_overflow_def entry_of_def split: option.splits)
    with Cons.IH Inr show ?thesis
      by (cases marks) (simp_all add: List.map_filter_simps)
  qed
qed

lemma filter_split_length:
  fixes ls :: "'k::linorder"
  shows "\<forall>e \<in> set P. ls \<le> snd e \<Longrightarrow>
     length (filter (\<lambda>e. ls < snd e) P) + length (filter (\<lambda>e. snd e = ls) P) = length P"
  by (induction P) auto

lemma filter_all_length: "\<forall>e \<in> set P. Q e \<Longrightarrow> length (filter Q P) = length P"
  by (induction P) auto

lemma filter_none_length: "\<forall>e \<in> set P. \<not> Q e \<Longrightarrow> length (filter Q P) = 0"
  by (induction P) auto

lemma descending_parts:
  assumes "sorted (rev (map snd (P @ e # R)))"
  shows "\<forall>x \<in> set P. snd e \<le> snd x" and "\<forall>x \<in> set R. snd x \<le> snd e"
  using assms by (auto simp: sorted_append)

lemma rank_loop_assign:
  assumes "sorted (rev (map snd (P @ R)))"
    and "cr = length (filter (\<lambda>e. ls < snd e) P)"
    and "dar = length (filter (\<lambda>e. snd e = ls) P)"
    and "\<forall>e \<in> set P. ls \<le> snd e"
    and "P = [] \<longrightarrow> (\<forall>e \<in> set R. snd e \<noteq> ls)"
    and "P \<noteq> [] \<longrightarrow> ls = snd (last P)"
    and "\<forall>e \<in> set R. truthy (entry_name e) \<longrightarrow> hashable (entry_name e)"
  shows "rank_loop R cr ls dar ranks = Inr (foldl (assign (P @ R)) ranks R)"
  using assms
proof (induction R arbitrary: P cr ls dar ranks)
  case Nil
  then show ?case by simp
next
  case (Cons e R)
  obtain d k where e: "e = (d, k)" by (cases e)
  let ?P = "P @ [e]"
  let ?cr = "if k \<noteq> ls then cr + dar else cr"
  let ?dar = "if k \<noteq> ls then 1 else dar + 1"
  have above: "\<forall>x \<in> set P. k \<le> snd x" and below: "\<forall>x \<in> set R. snd x \<le> k"
    using descending_parts [OF Cons.prems(1)] e by simp_all
  have lt: "k < ls" if "k \<noteq> ls" "P \<noteq> []"
  proof -
    from that(2) Cons.prems(6) have "ls = snd (last P)" by simp
    moreover from that(2) have "last P \<in> set P" by simp
    ultimately have "k \<le> ls" using above by auto
    with that(1) show ?thesis by simp
  qed
  have cr: "?cr = length (filter (\<lambda>x. k < snd x) ?P)"
  proof (cases "k = ls")
    case True
    with Cons.prems(2) e show ?thesis by simp
  next
    case False
    show ?thesis
    proof (cases "P = []")
      case True
      with False Cons.prems(2,3) e show ?thesis by simp
    next
      case ne: False
      from lt [OF False ne] Cons.prems(4) have "\<forall>x \<in> set P. k < snd x" by auto
      then have "length (filter (\<lambda>x. k < snd x) P) = length P" by (rule filter_all_length)
      moreover have "cr + dar = length P"
        using filter_split_length [OF Cons.prems(4)] Cons.prems(2,3) by simp
      ultimately show ?thesis using False e by simp
    qed
  qed
  have dar: "?dar = length (filter (\<lambda>x. snd x = k) ?P)"
  proof (cases "k = ls")
    case True
    with Cons.prems(3) e show ?thesis by simp
  next
    case False
    have "\<forall>x \<in> set P. snd x \<noteq> k"
    proof (cases "P = []")
      case ne: False
      from lt [OF False ne] Cons.prems(4) show ?thesis by auto
    qed simp
    then have "length (filter (\<lambda>x. snd x = k) P) = 0" by (intro filter_none_length) auto
    with False e show ?thesis by simp
  qed
  have rank: "?cr + 1 = competition_rank (P @ e # R) k"
  proof -
    have "length (filter (\<lambda>x. k < snd x) R) = 0"
      using below by (intro filter_none_length) auto
    with cr e show ?thesis by (simp add: competition_rank_def)
  qed
  have IH: "rank_loop R ?cr k ?dar ranks' = Inr (foldl (assign (?P @ R)) ranks' R)" for ranks'
  proof (rule Cons.IH)
    show "sorted (rev (map snd (?P @ R)))" using Cons.prems(1) by simp
    show "?cr = length (filter (\<lambda>x. k < snd x) ?P)" by (rule cr)
    show "?dar = length (filter (\<lambda>x. snd x = k) ?P)" by (rule dar)
    show "\<forall>x \<in> set ?P. k \<le> snd x" using above e by simp
    show "?P = [] \<longrightarrow> (\<forall>x \<in> set R. snd x \<noteq> k)" by simp
    show "?P \<noteq> [] \<longrightarrow> k = snd (last ?P)" using e by simp
    show "\<forall>x \<in> set R. truthy (entry_name x) \<longrightarrow> hashable (entry_name x)"
      using Cons.prems(7) by simp
  qed
  have h: "truthy (entry_name e) \<longrightarrow> hashable (entry_name e)" using Cons.prems(7) by simp
  have ls': "(if k \<noteq> ls then k else ls) = k" by simp
  have name: "dict_get d ''name'' PNone = entry_name e" by (simp add: e entry_name_def)
  have step: "rank_loop (e # R) cr ls dar ranks =
      (if truthy (entry_name e)
       then rank_loop R ?cr k ?dar (ranks(entry_name e \<mapsto> ?cr + 1))
       else rank_loop R ?cr k ?dar ranks)"
    using h unfolding e rank_loop.simps Let_def ls' name [unfolded e] by simp
  have a: "assign (P @ e # R) ranks e =
      (if truthy (entry_name e) then ranks(entry_name e \<mapsto> ?cr + 1) else ranks)"
    using rank unfolding e by (auto simp: assign_def)
  show ?case
    unfolding step foldl_Cons a using IH by simp
qed

lemma competition_rank_mono:
  fixes k k' :: sortkey
  assumes "k' \<le> k"
  shows "competition_rank S k \<le> competition_rank S k'"
proof -
  have "length (filter (\<lambda>e. k < snd e) S) \<le> length (filter (\<lambda>e. k' < snd e) S)"
  proof (induction S)
    case (Cons a S)
    then show ?case using assms by auto
  qed simp
  then show ?thesis by (simp add: competition_rank_def)
qed

lemma foldl_assign:
  assumes "sorted (rev (map snd R))"
  shows "foldl (assign S) ranks R n =
     (if {e \<in> set R. truthy (entry_name e) \<and> entry_name e = n} = {} then ranks n
      else Some (Max ((\<lambda>e. competition_rank S (snd e)) `
                       {e \<in> set R. truthy (entry_name e) \<and> entry_name e = n})))"
  using assms
proof (induction R arbitrary: ranks)
  case Nil
  then show ?case by simp
next
  case (Cons a R)
  define M where "M = {e \<in> set R. truthy (entry_name e) \<and> entry_name e = n}"
  define M' where "M' = {e \<in> set (a # R). truthy (entry_name e) \<and> entry_name e = n}"
  define r :: "pydict \<times> sortkey \<Rightarrow> nat" where "r = (\<lambda>e. competition_rank S (snd e))"
  have sorted: "sorted (rev (map snd R))" and le: "\<forall>x \<in> set R. snd x \<le> snd a"
    using Cons.prems by (auto simp: sorted_append)
  have IH: "foldl (assign S) ranks' R n = (if M = {} then ranks' n else Some (Max (r ` M)))"
    for ranks'
    unfolding M_def r_def by (rule Cons.IH [OF sorted])
  have goal: "foldl (assign S) (assign S ranks a) R n =
      (if M' = {} then ranks n else Some (Max (r ` M')))"
  proof (cases "truthy (entry_name a) \<and> entry_name a = n")
    case True
    then have M: "M' = insert a M" by (auto simp: M_def M'_def)
    have upd: "assign S ranks a n = Some (r a)" using True by (auto simp: assign_def r_def)
    show ?thesis
    proof (cases "M = {}")
      case True
      then show ?thesis unfolding IH M upd by simp
    next
      case False
      have fin: "finite (r ` M)" by (simp add: M_def)
      have ne: "r ` M \<noteq> {}" using False by simp
      have "\<forall>y \<in> r ` M. r a \<le> y"
        using le competition_rank_mono by (auto simp: M_def r_def)
      moreover have "Max (r ` M) \<in> r ` M" using fin ne by (rule Max_in)
      ultimately have "r a \<le> Max (r ` M)" by blast
      then have "Max (insert (r a) (r ` M)) = Max (r ` M)"
        using fin ne by (simp add: max_def)
      then show ?thesis unfolding IH M using False by simp
    qed
  next
    case False
    then have M: "M' = M" by (auto simp: M_def M'_def)
    have upd: "assign S ranks a n = ranks n" using False by (auto simp: assign_def)
    show ?thesis unfolding IH M upd by simp
  qed
  then show ?case unfolding M'_def r_def by simp
qed

lemma py_sort_mset [simp]: "mset (py_sort key reverse xs) = mset xs"
  by (simp add: py_sort_def)

lemma py_sort_descending: "sorted (rev (map key (py_sort key True xs)))"
  by (simp add: py_sort_def rev_map)

lemma competition_rank_mset:
  assumes "mset S = mset V"
  shows "competition_rank S k = competition_rank V k"
proof -
  have "length (filter (\<lambda>e. k < snd e) S) = size (filter_mset (\<lambda>e. k < snd e) (mset S))"
    by (metis mset_filter size_mset)
  also have "\<dots> = length (filter (\<lambda>e. k < snd e) V)"
    unfolding assms by (metis mset_filter size_mset)
  finally show ?thesis by (simp add: competition_rank_def)
qed

lemma set_map_filter: "set (List.map_filter f xs) = {y. \<exists>x \<in> set xs. f x = Some y}"
  by (induction xs) (auto simp: List.map_filter_simps split: option.splits)

lemma valid_marks_key: "valid_marks v = Inr (Some k) \<Longrightarrow> \<exists>x. k = KFin x"
proof -
  assume a: "valid_marks v = Inr (Some k)"
  then obtain n f where n: "as_num v = Some n" "num_to_float n = Inr f"
    "\<not> isnan f" "\<not> isinf f" "key_of_num n = Some k"
    by (auto simp: valid_marks_def split: option.splits sum.splits if_splits)
  show ?thesis
  proof (cases n)
    case (NInt i)
    with n show ?thesis by auto
  next
    case (NFloat g)
    with n show ?thesis by (cases g) (auto simp: isnan_def isinf_def)
  qed
qed

lemma entry_of_Some: "entry_of d = Some e \<Longrightarrow> fst e = d \<and> (\<exists>x. snd e = KFin x)"
  by (auto simp: entry_of_def split: sum.splits option.splits dest: valid_marks_key)

lemma scored_entries:
  assumes "e \<in> set (scored ps)"
  shows "\<exists>k. (k, fst e) \<in> set ps" and "\<exists>x. snd e = KFin x" and "entry_of (fst e) = Some e"
proof -
  from assms obtain d where d: "d \<in> snd ` set ps" "entry_of d = Some e"
    by (auto simp: scored_def set_map_filter)
  from entry_of_Some [OF d(2)] have e: "fst e = d" "\<exists>x. snd e = KFin x" by simp_all
  from d(1) e(1) show "\<exists>k. (k, fst e) \<in> set ps" by auto
  from e(2) show "\<exists>x. snd e = KFin x" .
  from d(2) e(1) show "entry_of (fst e) = Some e" by simp
qed

lemma str_name_hashable: "str_or_none v \<Longrightarrow> truthy v \<Longrightarrow> hashable v"
  by (cases v) simp_all

lemma calculate_ranks_eq:
  assumes "named_ok ps"
  shows "calculate_ranks ps =
     (if \<exists>d \<in> set (map snd ps). marks_overflow d then Inl OverflowError
      else Inr (\<lambda>n. if ranks_named (scored ps) n = {} then None
                     else Some (Max (ranks_named (scored ps) n))))"
proof (cases "\<exists>d \<in> set (map snd ps). marks_overflow d")
  case True
  then have "ps \<noteq> []" by auto
  with True show ?thesis by (simp add: calculate_ranks_def valid_entries_eq)
next
  case False
  define V where "V = scored ps"
  define S where "S = py_sort snd True V"
  have ve: "valid_entries (map snd ps) = Inr V"
    using False by (simp add: valid_entries_eq V_def scored_def)
  show ?thesis
  proof (cases "V = []")
    case True
    then have "ranks_named (scored ps) n = {}" for n by (simp add: ranks_named_def V_def)
    with True False ve show ?thesis by (auto simp: calculate_ranks_def)
  next
    case ne: False
    then have psne: "ps \<noteq> []" by (auto simp: V_def scored_def List.map_filter_simps)
    have setS: "set S = set V" and msetS: "mset S = mset V" by (simp_all add: S_def)
    have hash: "\<forall>e \<in> set S. truthy (entry_name e) \<longrightarrow> hashable (entry_name e)"
    proof (intro ballI impI)
      fix e assume e: "e \<in> set S" and t: "truthy (entry_name e)"
      from e setS have "e \<in> set (scored ps)" by (simp add: V_def)
      from scored_entries(1) [OF this] obtain k where "(k, fst e) \<in> set ps" ..
      with assms have "str_or_none (entry_name e)"
        by (auto simp: named_ok_def list_all_iff entry_name_def)
      then show "hashable (entry_name e)" using t by (rule str_name_hashable)
    qed
    have keys: "\<forall>e \<in> set S. snd e \<noteq> KNegInf"
    proof
      fix e assume "e \<in> set S"
      with setS have "e \<in> set (scored ps)" by (simp add: V_def)
      from scored_entries(2) [OF this] show "snd e \<noteq> KNegInf" by auto
    qed
    have loop: "rank_loop S 0 KNegInf 0 Map.empty = Inr (foldl (assign ([] @ S)) Map.empty S)"
      by (rule rank_loop_assign) (use py_sort_descending [of snd V] hash keys in \<open>simp_all add: S_def\<close>)
    have m: "foldl (assign S) Map.empty S n =
        (if ranks_named V n = {} then None else Some (Max (ranks_named V n)))" for n
    proof -
      have "sorted (rev (map snd S))" using py_sort_descending [of snd V] by (simp add: S_def)
      from foldl_assign [OF this, of S Map.empty n] show ?thesis
        by (simp add: ranks_named_def setS competition_rank_mset [OF msetS])
    qed
    have "calculate_ranks ps = Inr (foldl (assign S) Map.empty S)"
      using psne ve ne loop by (simp add: calculate_ranks_def S_def)
    also have "foldl (assign S) Map.empty S =
        (\<lambda>n. if ranks_named V n = {} then None else Some (Max (ranks_named V n)))"
      by (rule ext) (rule m)
    finally have "calculate_ranks ps =
        Inr (\<lambda>n. if ranks_named V n = {} then None else Some (Max (ranks_named V n)))" .
    then show ?thesis using False unfolding V_def by simp
  qed
qed

lemma mset_map_filter:
  "mset (List.map_filter f xs) = image_mset (the \<circ> f) (filter_mset (\<lambda>x. f x \<noteq> None) (mset xs))"
  by (induction xs) (auto simp: List.map_filter_simps split: option.splits)

lemma scored_mset:
  assumes "mset ps = mset ps'"
  shows "mset (scored ps) = mset (scored ps')"
proof -
  have "mset (map snd ps) = mset (map snd ps')" using assms by (metis mset_map)
  then show ?thesis unfolding scored_def mset_map_filter by (rule arg_cong)
qed

lemma ranks_named_mset:
  assumes "mset S = mset V"
  shows "ranks_named S n = ranks_named V n"
proof -
  have "set S = set V" using assms by (rule mset_eq_setD)
  then show ?thesis by (simp add: ranks_named_def competition_rank_mset [OF assms])
qed

lemma less_KFin [simp]: "KFin x < KFin y \<longleftrightarrow> x < y"
  by (auto simp: less_sortkey_def)

lemma round_double_finite: "\<bar>q\<bar> < 2 ^ 1024 - 2 ^ 970 \<Longrightarrow> \<exists>r. round_double q = Finite r"
  by (simp add: round_double_def)

lemma entry_of_in_range:
  assumes "in_float_range (dict_get d TOTAL_MARKS_KEY PNone)"
  shows "entry_of d = map_option (\<lambda>x. (d, KFin x)) (finite_marks d)" and "\<not> marks_overflow d"
proof -
  let ?v = "dict_get d TOTAL_MARKS_KEY PNone"
  have "valid_marks ?v = Inr (map_option KFin (finite_marks d))"
  proof (cases "as_num ?v")
    case None
    then show ?thesis by (simp add: valid_marks_def finite_marks_def)
  next
    case (Some n)
    from num_to_float_in_range [OF Some assms] have f: "num_to_float n = Inr (to_float n)" .
    show ?thesis
    proof (cases n)
      case (NInt k)
      with Some assms have "\<bar>real_of_int k\<bar> < 2 ^ 1024 - 2 ^ 970" by (simp add: in_float_range_def)
      from round_double_finite [OF this] obtain r where "round_double (of_int k) = Finite r" ..
      with Some NInt f show ?thesis
        by (simp add: valid_marks_def finite_marks_def to_float_def isnan_def isinf_def)
    next
      case (NFloat g)
      with Some f show ?thesis
        by (cases g) (simp_all add: valid_marks_def finite_marks_def to_float_def isnan_def isinf_def)
    qed
  qed
  then show "entry_of d = map_option (\<lambda>x. (d, KFin x)) (finite_marks d)" "\<not> marks_overflow d"
    by (auto simp: entry_of_def marks_overflow_def split: option.splits)
qed

lemma count_outranks:
  assumes "list_all (\<lambda>(k, d). in_float_range (dict_get d TOTAL_MARKS_KEY PNone)) ps"
  shows "length (filter (\<lambda>e. KFin x < snd e) (scored ps)) = length (filter (\<lambda>(k, d). outranks x d) ps)"
  using assms
proof (induction ps)
  case Nil
  then show ?case by (simp add: scored_def List.map_filter_simps)
next
  case (Cons p ps)
  obtain k d where p: "p = (k, d)" by (cases p)
  from Cons.prems p have r: "in_float_range (dict_get d TOTAL_MARKS_KEY PNone)" by simp
  from Cons.prems have "list_all (\<lambda>(k, d). in_float_range (dict_get d TOTAL_MARKS_KEY PNone)) ps" by simp
  from Cons.IH [OF this] have IH: "length (filter (\<lambda>e. KFin x < snd e) (List.map_filter entry_of (map snd ps))) =
      length (filter (\<lambda>(k, d). outranks x d) ps)" by (simp add: scored_def)
  show ?case
    unfolding scored_def p
    by (cases "finite_marks d")
       (simp_all add: List.map_filter_simps entry_of_in_range(1) [OF r] IH outranks_def)
qed

lemma district_map_parts:
  assumes "district_map ps"
  shows "named_ok ps"
    and "list_all (\<lambda>(k, d). in_float_range (dict_get d TOTAL_MARKS_KEY PNone)) ps"
    and "\<not> (\<exists>d \<in> set (map snd ps). marks_overflow d)"
    and "distinct (map fst ps)"
    and "\<And>k d. (k, d) \<in> set ps \<Longrightarrow> k \<noteq> [] \<and> dict_get d ''name'' PNone = PStr k"
proof -
  show "named_ok ps" using assms by (auto simp: district_map_def named_ok_def list_all_iff)
  show r: "list_all (\<lambda>(k, d). in_float_range (dict_get d TOTAL_MARKS_KEY PNone)) ps"
    using assms by (auto simp: district_map_def list_all_iff)
  show "\<not> (\<exists>d \<in> set (map snd ps). marks_overflow d)"
  proof
    assume "\<exists>d \<in> set (map snd ps). marks_overflow d"
    then obtain k d where kd: "(k, d) \<in> set ps" "marks_overflow d" by auto
    from r kd(1) have "in_float_range (dict_get d TOTAL_MARKS_KEY PNone)"
      by (auto simp: list_all_iff)
    from entry_of_in_range(2) [OF this] kd(2) show False by simp
  qed
  show "distinct (map fst ps)" using assms by (simp add: district_map_def)
  show "\<And>k d. (k, d) \<in> set ps \<Longrightarrow> k \<noteq> [] \<and> dict_get d ''name'' PNone = PStr k"
    using assms by (auto simp: district_map_def list_all_iff)
qed

lemma scored_set:
  assumes "list_all (\<lambda>(k, d). in_float_range (dict_get d TOTAL_MARKS_KEY PNone)) ps"
  shows "e \<in> set (scored ps) \<longleftrightarrow>
     (\<exists>k x. (k, fst e) \<in> set ps \<and> finite_marks (fst e) = Some x \<and> snd e = KFin x)"
proof
  assume "e \<in> set (scored ps)"
  from scored_entries [OF this] obtain k where k: "(k, fst e) \<in> set ps"
    and e: "entry_of (fst e) = Some e" by blast
  from assms k have "in_float_range (dict_get (fst e) TOTAL_MARKS_KEY PNone)"
    by (auto simp: list_all_iff)
  from entry_of_in_range(1) [OF this] e obtain x where "finite_marks (fst e) = Some x" "e = (fst e, KFin x)"
    by (cases "finite_marks (fst e)") auto
  with k show "\<exists>k x. (k, fst e) \<in> set ps \<and> finite_marks (fst e) = Some x \<and> snd e = KFin x"
    by (metis snd_conv)
next
  assume "\<exists>k x. (k, fst e) \<in> set ps \<and> finite_marks (fst e) = Some x \<and> snd e = KFin x"
  then obtain k x where k: "(k, fst e) \<in> set ps" and x: "finite_marks (fst e) = Some x" "snd e = KFin x"
    by blast
  from assms k have "in_float_range (dict_get (fst e) TOTAL_MARKS_KEY PNone)"
    by (auto simp: list_all_iff)
  from entry_of_in_range(1) [OF this] x have "entry_of (fst e) = Some e"
    by (cases e) simp
  moreover from k have "fst e \<in> set (map snd ps)" by force
  ultimately show "e \<in> set (scored ps)"
    unfolding scored_def set_map_filter by blast
qed

lemma ranks_named_district:
  assumes "district_map ps" and "(k, d) \<in> set ps" and "finite_marks d = Some x"
  shows "ranks_named (scored ps) (PStr k) = {competition_rank (scored ps) (KFin x)}"
proof -
  note parts = district_map_parts [OF assms(1)]
  note mem = scored_set [OF parts(2)]
  have "{e \<in> set (scored ps). truthy (entry_name e) \<and> entry_name e = PStr k} = {(d, KFin x)}"
  proof (intro equalityI subsetI)
    fix e assume "e \<in> {e \<in> set (scored ps). truthy (entry_name e) \<and> entry_name e = PStr k}"
    then have e: "e \<in> set (scored ps)" and n: "entry_name e = PStr k" by simp_all
    from e obtain k' y where k': "(k', fst e) \<in> set ps" and y: "finite_marks (fst e) = Some y"
      "snd e = KFin y" unfolding mem by blast
    from parts(5) [OF k'] n have "k' = k" by (simp add: entry_name_def)
    with k' assms(2) parts(4) have "fst e = d" by (meson eq_key_imp_eq_value)
    with y assms(3) have "e = (d, KFin x)" by (cases e) simp
    then show "e \<in> {(d, KFin x)}" by simp
  next
    fix e assume "e \<in> {(d, KFin x)}"
    then have e: "e = (d, KFin x)" by simp
    with assms(2,3) have "e \<in> set (scored ps)" unfolding mem by auto
    moreover from parts(5) [OF assms(2)] e have "truthy (entry_name e)" "entry_name e = PStr k"
      by (simp_all add: entry_name_def)
    ultimately show "e \<in> {e \<in> set (scored ps). truthy (entry_name e) \<and> entry_name e = PStr k}"
      by simp
  qed
  then show ?thesis by (simp add: ranks_named_def)
qed

lemma ranks_named_nonempty:
  assumes "district_map ps"
  shows "ranks_named (scored ps) n \<noteq> {} \<longleftrightarrow>
     (\<exists>k d. (k, d) \<in> set ps \<and> finite_marks d \<noteq> None \<and> n = PStr k)"
proof
  note parts = district_map_parts [OF assms]
  note mem = scored_set [OF parts(2)]
  assume "ranks_named (scored ps) n \<noteq> {}"
  then obtain e where e: "e \<in> set (scored ps)" and n: "entry_name e = n"
    by (auto simp: ranks_named_def)
  from e obtain k y where k: "(k, fst e) \<in> set ps" and y: "finite_marks (fst e) = Some y"
    unfolding mem by blast
  from parts(5) [OF k] n have "n = PStr k" by (simp add: entry_name_def)
  with k y show "\<exists>k d. (k, d) \<in> set ps \<and> finite_marks d \<noteq> None \<and> n = PStr k" by auto
next
  assume "\<exists>k d. (k, d) \<in> set ps \<and> finite_marks d \<noteq> None \<and> n = PStr k"
  then obtain k d x where "(k, d) \<in> set ps" "finite_marks d = Some x" "n = PStr k" by auto
  with ranks_named_district [OF assms] show "ranks_named (scored ps) n \<noteq> {}" by simp
qed

text \<open>
  C1. On a collection of district records as the aggregation builds it (records stored
  under their own non-empty names, int totals within the float range),
  \<open>calculate_ranks\<close> returns a map from names to ranks. Its domain is exactly the
  names of the districts whose \<open>total_marks\<close> is a non-null, non-NaN, non-infinite
  number, and the rank of such a district is one more than the number of such districts
  with a strictly greater total: equal totals share a rank, ranks start at 1 and a gap
  follows a tie (the totals 10, 10, 8 give the ranks 1, 1, 3).
\<close>

theorem calculate_ranks_spec:
  assumes "district_map ps"
  shows "\<exists>m. calculate_ranks ps = Inr m \<and>
           dom m = {PStr k | k d. (k, d) \<in> set ps \<and> finite_marks d \<noteq> None} \<and>
           (\<forall>(k, d) \<in> set ps. \<forall>x. finite_marks d = Some x \<longrightarrow>
              m (PStr k) = Some (1 + length (filter (\<lambda>(k', d'). outranks x d') ps)))"
proof -
  note parts = district_map_parts [OF assms]
  define m where "m = (\<lambda>n. if ranks_named (scored ps) n = {} then None
                             else Some (Max (ranks_named (scored ps) n)))"
  have res: "calculate_ranks ps = Inr m"
    unfolding calculate_ranks_eq [OF parts(1)] m_def using parts(3) by simp
  have "dom m = {n. ranks_named (scored ps) n \<noteq> {}}" by (auto simp: m_def dom_def)
  also have "\<dots> = {PStr k | k d. (k, d) \<in> set ps \<and> finite_marks d \<noteq> None}"
    unfolding ranks_named_nonempty [OF assms] by blast
  finally have dom: "dom m = {PStr k | k d. (k, d) \<in> set ps \<and> finite_marks d \<noteq> None}" .
  have rank: "m (PStr k) = Some (1 + length (filter (\<lambda>(k', d'). outranks x d') ps))"
    if "(k, d) \<in> set ps" "finite_marks d = Some x" for k d x
  proof -
    from ranks_named_district [OF assms that]
    have "m (PStr k) = Some (competition_rank (scored ps) (KFin x))" by (simp add: m_def)
    then show ?thesis by (simp add: competition_rank_def count_outranks [OF parts(2)])
  qed
  from res dom rank show ?thesis by blast
qed

lemma int_to_float_8: "int_to_float 8 = Inr (Finite 8)"
  by (simp add: int_to_float_def double_eval)

lemma four_districts_ranks:
  "calculate_ranks four_districts = Inr [PStr ''A'' \<mapsto> 1, PStr ''B'' \<mapsto> 1, PStr ''C'' \<mapsto> 3]"
  by (simp add: calculate_ranks_def four_districts_def district_def TOTAL_MARKS_KEY_def
      valid_marks_def dict_get_def int_to_float_10 int_to_float_8 isnan_def isinf_def
      py_sort_def Let_def eval_nat_numeral)

lemma four_districts_map: "district_map four_districts"
  by (simp add: district_map_def four_districts_def district_def TOTAL_MARKS_KEY_def
      dict_get_def in_float_range_def)

theorem calculate_ranks_spec_witness:
  "district_map four_districts \<and>
   calculate_ranks four_districts = Inr [PStr ''A'' \<mapsto> 1, PStr ''B'' \<mapsto> 1, PStr ''C'' \<mapsto> 3]"
  using calculate_ranks_spec [OF four_districts_map] four_districts_map four_districts_ranks
  by simp

text \<open>
  C9. Two collections that hold the same district records in different orders get the
  same map of ranks, or raise the same exception. Names are strings (or missing), as
  they are for every record the aggregation builds.
\<close>

theorem calculate_ranks_order_independent:
  assumes "mset ps = mset ps'" and "named_ok ps"
  shows "calculate_ranks ps = calculate_ranks ps'"
proof -
  have set: "set ps = set ps'" using assms(1) by (rule mset_eq_setD)
  then have ok: "named_ok ps'" using assms(2) by (simp add: named_ok_def list_all_iff)
  have r: "ranks_named (scored ps) n = ranks_named (scored ps') n" for n
    by (rule ranks_named_mset) (rule scored_mset [OF assms(1)])
  have s: "set (map snd ps) = set (map snd ps')" using set by simp
  show ?thesis
    unfolding calculate_ranks_eq [OF assms(2)] calculate_ranks_eq [OF ok] r s ..
qed

theorem calculate_ranks_order_independent_witness:
  "mset four_districts = mset (rev four_districts) \<and> named_ok four_districts \<and>
   calculate_ranks (rev four_districts) = Inr [PStr ''A'' \<mapsto> 1, PStr ''B'' \<mapsto> 1, PStr ''C'' \<mapsto> 3]"
proof -
  have h: "mset four_districts = mset (rev four_districts)" "named_ok four_districts"
    by (simp_all add: named_ok_def four_districts_def district_def dict_get_def)
  from calculate_ranks_order_independent [OF h] h four_districts_ranks show ?thesis by simp
qed

section \<open>Total marks\<close>

lemma dict_get_set [simp]: "dict_get (dict_set d k v) k dflt = v"
  by (induction d) (auto simp: dict_get_def)

lemma round2_zero [simp]: "round2 (Finite 0) = Finite 0"
  by (simp add: round_double_def round_half_even_def)

lemma valid_marks_None [simp]: "valid_marks PNone = Inr None"
  by (simp add: valid_marks_def)




































lemma round_double_zero: "round_double 0 = Finite 0"
  by (simp add: round_double_def)









section \<open>Changes per work category\<close>

lemma changes_loop_eq:
  assumes "\<forall>c \<in> set cs. \<exists>r. category_change s2f s2i ct pt c = Inr r"
  shows "\<exists>m'. changes_loop s2f s2i ct pt cs m = Inr m' \<and>
     (\<forall>c. m' c =
        (if c \<in> set cs then
           (case category_change s2f s2i ct pt c of
              Inr (cc, mc) \<Rightarrow> if cc \<noteq> 0 \<or> mc \<noteq> Finite 0 then Some (cc, mc) else m c
            | Inl e \<Rightarrow> m c)
         else m c))"
  using assms
proof (induction cs arbitrary: m)
  case Nil
  then show ?case by simp
next
  case (Cons a cs)
  from Cons.prems obtain cc mc where a: "category_change s2f s2i ct pt a = Inr (cc, mc)" by fastforce
  define m1 where "m1 = (if cc \<noteq> 0 \<or> mc \<noteq> Finite 0 then m(a \<mapsto> (cc, mc)) else m)"
  from Cons.prems have "\<forall>c \<in> set cs. \<exists>r. category_change s2f s2i ct pt c = Inr r" by simp
  from Cons.IH [OF this, of m1] obtain m' where m': "changes_loop s2f s2i ct pt cs m1 = Inr m'"
    and eq: "\<And>c. m' c =
        (if c \<in> set cs then
           (case category_change s2f s2i ct pt c of
              Inr (cc, mc) \<Rightarrow> if cc \<noteq> 0 \<or> mc \<noteq> Finite 0 then Some (cc, mc) else m1 c
            | Inl e \<Rightarrow> m1 c)
         else m1 c)" by blast
  have "changes_loop s2f s2i ct pt (a # cs) m = Inr m'"
    using a m' by (simp add: m1_def)
  moreover have "m' c =
        (if c \<in> set (a # cs) then
           (case category_change s2f s2i ct pt c of
              Inr (cc, mc) \<Rightarrow> if cc \<noteq> 0 \<or> mc \<noteq> Finite 0 then Some (cc, mc) else m c
            | Inl e \<Rightarrow> m c)
         else m c)" for c
    unfolding eq [of c] using a by (auto simp: m1_def split: sum.splits)
  ultimately show ?case by blast
qed

lemma safe_get_field:
  "safe_get (PDict kvs) [k] dflt =
     (if dict_get kvs k PNone = PFloat NaN \<or> dict_get kvs k PNone = PNone then dflt
      else dict_get kvs k PNone)"
  by (simp add: safe_get_def)

lemma safe_get_not_dict: "\<forall>kvs. data \<noteq> PDict kvs \<Longrightarrow> safe_get data keys dflt = dflt"
  by (cases data) (simp_all add: safe_get_def)

lemma int_field_read:
  assumes "int_field (dict_get e k PNone)"
  shows "py_int s2i (safe_get (PDict e) [k] (PInt 0)) =
           Inr (case map_of e k of Some (PInt n) \<Rightarrow> n | _ \<Rightarrow> 0)"
  using assms
  by (cases "dict_get e k PNone" rule: int_field.cases)
     (auto simp: safe_get_field dict_get_def split: option.splits)

lemma float_field_converts:
  assumes "float_field (dict_get e k PNone)"
  shows "\<exists>f. py_float s2f (safe_get (PDict e) [k] (PFloat (Finite 0))) = Inr f"
  using assms
  by (cases "dict_get e k PNone" rule: float_field.cases)
     (auto simp: safe_get_field int_to_float_in_range)

lemma float_field_read:
  assumes "float_field (dict_get e k PNone)" and "dict_get e k PNone \<noteq> PFloat NaN"
  shows "py_float s2f (safe_get (PDict e) [k] (PFloat (Finite 0))) =
           Inr (case map_of e k of
                  Some (PFloat f) \<Rightarrow> f
                | Some (PInt n) \<Rightarrow> round_double (of_int n)
                | _ \<Rightarrow> Finite 0)"
  using assms
  by (cases "dict_get e k PNone" rule: float_field.cases)
     (auto simp: safe_get_field dict_get_def int_to_float_in_range split: option.splits)

lemma figures_read:
  assumes "figures_ok cat"
  shows "py_int s2i (safe_get cat [''completed''] (PInt 0)) =
           Inr (case cat of PDict e \<Rightarrow> (case map_of e ''completed'' of Some (PInt n) \<Rightarrow> n | _ \<Rightarrow> 0)
                | _ \<Rightarrow> 0)"
    and "py_float s2f (safe_get cat [''marks''] (PFloat (Finite 0))) =
           Inr (case cat of
                  PDict e \<Rightarrow>
                    (case map_of e ''marks'' of
                       Some (PFloat f) \<Rightarrow> f
                     | Some (PInt n) \<Rightarrow> round_double (of_int n)
                     | _ \<Rightarrow> Finite 0)
                | _ \<Rightarrow> Finite 0)"
proof -
  show "py_int s2i (safe_get cat [''completed''] (PInt 0)) =
           Inr (case cat of PDict e \<Rightarrow> (case map_of e ''completed'' of Some (PInt n) \<Rightarrow> n | _ \<Rightarrow> 0)
                | _ \<Rightarrow> 0)"
  proof (cases cat)
    case (PDict e)
    with assms show ?thesis by (simp add: figures_ok_def int_field_read)
  qed (simp_all add: safe_get_not_dict)
  show "py_float s2f (safe_get cat [''marks''] (PFloat (Finite 0))) =
           Inr (case cat of
                  PDict e \<Rightarrow>
                    (case map_of e ''marks'' of
                       Some (PFloat f) \<Rightarrow> f
                     | Some (PInt n) \<Rightarrow> round_double (of_int n)
                     | _ \<Rightarrow> Finite 0)
                | _ \<Rightarrow> Finite 0)"
  proof (cases cat)
    case (PDict e)
    with assms show ?thesis by (simp add: figures_ok_def float_field_read)
  qed (simp_all add: safe_get_not_dict)
qed

lemma snapshot_category:
  assumes "old_works_snapshot snapshot" and "c \<in> set OLD_NRM_TARGET_CATEGORIES"
  shows "\<exists>cat. category_data (safe_get snapshot [''individual_work_types''] (PDict [])) c = Inr cat \<and>
           py_int s2i (safe_get cat [''completed''] (PInt 0)) = Inr (completed_count snapshot c) \<and>
           py_float s2f (safe_get cat [''marks''] (PFloat (Finite 0))) = Inr (category_marks snapshot c)"
proof -
  from assms(1) obtain kvs where snap: "snapshot = PDict kvs"
    and types: "work_types_ok (dict_get kvs ''individual_work_types'' PNone)"
    by (cases snapshot) (auto simp: old_works_snapshot_def)
  have empty: "figures_ok (PDict [])" by (simp add: figures_ok_def dict_get_def)
  consider "dict_get kvs ''individual_work_types'' PNone = PNone"
    | d where "dict_get kvs ''individual_work_types'' PNone = PDict d"
    using types by (cases "dict_get kvs ''individual_work_types'' PNone") (simp_all add: work_types_ok_def)
  then show ?thesis
  proof cases
    case 1
    then have t: "safe_get snapshot [''individual_work_types''] (PDict []) = PDict []"
      by (simp add: snap safe_get_field)
    from 1 have f: "category_figures snapshot c = []"
      by (auto simp: category_figures_def snap dict_get_def split: option.splits)
    show ?thesis
      using figures_read(1) [OF empty, of s2i] figures_read(2) [OF empty, of s2f]
      by (simp add: t category_data_def dict_get_def completed_count_def category_marks_def f)
  next
    case 2
    then have t: "safe_get snapshot [''individual_work_types''] (PDict []) = PDict d"
      by (simp add: snap safe_get_field)
    from 2 have m: "map_of kvs ''individual_work_types'' = Some (PDict d)"
      by (auto simp: dict_get_def split: option.splits)
    define cat where "cat = dict_get d c (PDict [])"
    have ok: "figures_ok cat"
    proof (cases "map_of d c")
      case None
      then show ?thesis using empty by (simp add: cat_def dict_get_def)
    next
      case (Some x)
      from types 2 assms(2) have "figures_ok (dict_get d c PNone)"
        by (simp add: work_types_ok_def list_all_iff)
      with Some show ?thesis by (simp add: cat_def dict_get_def)
    qed
    have f: "category_figures snapshot c = (case cat of PDict e \<Rightarrow> e | _ \<Rightarrow> [])"
      by (auto simp: category_figures_def snap m cat_def dict_get_def split: option.splits pyval.splits)
    have "completed_count snapshot c =
            (case cat of PDict e \<Rightarrow> (case map_of e ''completed'' of Some (PInt n) \<Rightarrow> n | _ \<Rightarrow> 0) | _ \<Rightarrow> 0)"
      by (simp add: completed_count_def f split: pyval.splits)
    moreover have "category_marks snapshot c =
            (case cat of
                  PDict e \<Rightarrow>
                    (case map_of e ''marks'' of
                       Some (PFloat f) \<Rightarrow> f
                     | Some (PInt n) \<Rightarrow> round_double (of_int n)
                     | _ \<Rightarrow> Finite 0)
                | _ \<Rightarrow> Finite 0)"
      by (simp add: category_marks_def f split: pyval.splits)
    ultimately show ?thesis
      using figures_read(1) [OF ok, of s2i] figures_read(2) [OF ok, of s2f]
      by (simp add: t category_data_def cat_def)
  qed
qed

lemma category_change_snapshot:
  assumes "old_works_snapshot curr_dist_data" and "old_works_snapshot prev_dist_data"
    and "c \<in> set OLD_NRM_TARGET_CATEGORIES"
  shows "category_change s2f s2i
           (safe_get curr_dist_data [''individual_work_types''] (PDict []))
           (safe_get prev_dist_data [''individual_work_types''] (PDict [])) c =
         Inr (completed_delta curr_dist_data prev_dist_data c, marks_delta curr_dist_data prev_dist_data c)"
proof -
  from snapshot_category [OF assms(1,3), of s2i s2f] obtain cc where
    cc: "category_data (safe_get curr_dist_data [''individual_work_types''] (PDict [])) c = Inr cc"
      "py_int s2i (safe_get cc [''completed''] (PInt 0)) = Inr (completed_count curr_dist_data c)"
      "py_float s2f (safe_get cc [''marks''] (PFloat (Finite 0))) = Inr (category_marks curr_dist_data c)"
    by blast
  from snapshot_category [OF assms(2,3), of s2i s2f] obtain pc where
    pc: "category_data (safe_get prev_dist_data [''individual_work_types''] (PDict [])) c = Inr pc"
      "py_int s2i (safe_get pc [''completed''] (PInt 0)) = Inr (completed_count prev_dist_data c)"
      "py_float s2f (safe_get pc [''marks''] (PFloat (Finite 0))) = Inr (category_marks prev_dist_data c)"
    by blast
  show ?thesis
    unfolding category_change_def
    by (simp add: cc pc completed_delta_def marks_delta_def del: round2.simps)
qed

lemma snapshot_figures_convert:
  assumes "old_works_snapshot snapshot"
  shows "truthy snapshot \<and>
         (\<exists>f. py_float s2f (safe_get snapshot [OLD_WORKS_SCORE_KEY] (PFloat (Finite 0))) = Inr f) \<and>
         (\<exists>n. py_int s2i (safe_get snapshot [OLD_WORKS_COUNT_KEY] (PInt 0)) = Inr n) \<and>
         (\<exists>n. py_int s2i (safe_get snapshot [TOTAL_WORK_COMPLETED_KEY] (PInt 0)) = Inr n) \<and>
         (\<exists>f. py_float s2f (safe_get snapshot [''financial_progress_marks''] (PFloat (Finite 0))) = Inr f)"
proof -
  from assms obtain kvs where snap: "snapshot = PDict kvs" and ne: "kvs \<noteq> []"
    and f: "float_field (dict_get kvs OLD_WORKS_SCORE_KEY PNone)"
      "int_field (dict_get kvs OLD_WORKS_COUNT_KEY PNone)"
      "int_field (dict_get kvs TOTAL_WORK_COMPLETED_KEY PNone)"
      "float_field (dict_get kvs ''financial_progress_marks'' PNone)"
    by (cases snapshot) (auto simp: old_works_snapshot_def)
  show ?thesis
    unfolding snap
    using ne float_field_converts [OF f(1), of s2f] float_field_converts [OF f(4), of s2f]
    by (simp add: int_field_read [OF f(2)] int_field_read [OF f(3)])
qed

text \<open>
  C7. For a current and a previous snapshot of a district, the comparison yields the
  changes, and its map of changes per category holds a category exactly when the
  completed delta of the category (the difference of its completed counts in the two
  snapshots) is non-zero or its marks delta (the difference of its marks, rounded to
  two decimals) is non-zero. The entry of a category in the map is the pair of these
  two deltas. A category whose two deltas are zero is not in the map, and the map has
  no key outside \<open>OLD_NRM_TARGET_CATEGORIES\<close>.
\<close>

theorem category_changes_sparse:
  assumes "old_works_snapshot curr_dist_data" and "old_works_snapshot prev_dist_data"
  shows "\<exists>changes.
           selected_district_change s2f s2i curr_dist_data prev_dist_data = Changes changes \<and>
           dom (individual_work_type_changes changes) =
             {category \<in> set OLD_NRM_TARGET_CATEGORIES.
                completed_delta curr_dist_data prev_dist_data category \<noteq> 0 \<or>
                marks_delta curr_dist_data prev_dist_data category \<noteq> Finite 0} \<and>
           (\<forall>category \<in> dom (individual_work_type_changes changes).
              individual_work_type_changes changes category =
                Some (completed_delta curr_dist_data prev_dist_data category,
                      marks_delta curr_dist_data prev_dist_data category))"
proof -
  let ?ct = "safe_get curr_dist_data [''individual_work_types''] (PDict [])"
  let ?pt = "safe_get prev_dist_data [''individual_work_types''] (PDict [])"
  let ?cd = "completed_delta curr_dist_data prev_dist_data"
  let ?md = "marks_delta curr_dist_data prev_dist_data"
  have cc: "category_change s2f s2i ?ct ?pt c = Inr (?cd c, ?md c)"
    if "c \<in> set OLD_NRM_TARGET_CATEGORIES" for c
    using that by (rule category_change_snapshot [OF assms])
  then have "\<forall>c \<in> set OLD_NRM_TARGET_CATEGORIES. \<exists>r. category_change s2f s2i ?ct ?pt c = Inr r"
    by blast
  from changes_loop_eq [OF this, of Map.empty] obtain m
    where m: "changes_loop s2f s2i ?ct ?pt OLD_NRM_TARGET_CATEGORIES Map.empty = Inr m"
      and eq: "\<And>c. m c =
        (if c \<in> set OLD_NRM_TARGET_CATEGORIES then
           (case category_change s2f s2i ?ct ?pt c of
              Inr (cc, mc) \<Rightarrow> if cc \<noteq> 0 \<or> mc \<noteq> Finite 0 then Some (cc, mc) else None
            | Inl e \<Rightarrow> None)
         else None)" by auto
  have mc: "m c = (if c \<in> set OLD_NRM_TARGET_CATEGORIES \<and> (?cd c \<noteq> 0 \<or> ?md c \<noteq> Finite 0)
                   then Some (?cd c, ?md c) else None)" for c
    unfolding eq [of c] using cc [of c] by simp
  from snapshot_figures_convert [OF assms(1), of s2f s2i]
    snapshot_figures_convert [OF assms(2), of s2f s2i]
  obtain cs ps cn pn ct pt cf pf where v:
    "py_float s2f (safe_get curr_dist_data [OLD_WORKS_SCORE_KEY] (PFloat (Finite 0))) = Inr cs"
    "py_float s2f (safe_get prev_dist_data [OLD_WORKS_SCORE_KEY] (PFloat (Finite 0))) = Inr ps"
    "py_int s2i (safe_get curr_dist_data [OLD_WORKS_COUNT_KEY] (PInt 0)) = Inr cn"
    "py_int s2i (safe_get prev_dist_data [OLD_WORKS_COUNT_KEY] (PInt 0)) = Inr pn"
    "py_int s2i (safe_get curr_dist_data [TOTAL_WORK_COMPLETED_KEY] (PInt 0)) = Inr ct"
    "py_int s2i (safe_get prev_dist_data [TOTAL_WORK_COMPLETED_KEY] (PInt 0)) = Inr pt"
    "py_float s2f (safe_get curr_dist_data [''financial_progress_marks''] (PFloat (Finite 0))) = Inr cf"
    "py_float s2f (safe_get prev_dist_data [''financial_progress_marks''] (PFloat (Finite 0))) = Inr pf"
    and t: "truthy curr_dist_data" "truthy prev_dist_data"
    by blast
  define changes where "changes =
    DistrictChanges (round2 (fsub cs ps)) (cn - pn) (ct - pt) (round2 (fsub cf pf)) m"
  have "change_values s2f s2i curr_dist_data prev_dist_data = Inr changes"
    unfolding change_values_def by (simp add: v m changes_def del: round2.simps)
  then have sel: "selected_district_change s2f s2i curr_dist_data prev_dist_data = Changes changes"
    by (simp add: selected_district_change_def t)
  have iw: "individual_work_type_changes changes = m" by (simp add: changes_def)
  have "dom m = {category \<in> set OLD_NRM_TARGET_CATEGORIES. ?cd category \<noteq> 0 \<or> ?md category \<noteq> Finite 0}"
    by (auto simp: dom_def mc)
  moreover have "\<forall>category \<in> dom m. m category = Some (?cd category, ?md category)"
    by (auto simp: dom_def mc split: if_splits)
  ultimately show ?thesis using sel iw by auto
qed

text \<open>
  Without a previous snapshot there is no map of changes, only a status; without a
  current snapshot there is nothing.
\<close>

lemma no_previous_snapshot:
  assumes "truthy curr_dist_data" and "\<not> truthy prev_dist_data"
  shows "selected_district_change s2f s2i curr_dist_data prev_dist_data =
           ChangeStatus ''Previous day data unavailable for district''"
  using assms by (simp add: selected_district_change_def)

lemma no_current_snapshot:
  assumes "\<not> truthy curr_dist_data"
  shows "selected_district_change s2f s2i curr_dist_data prev_dist_data = NoChange"
  using assms by (simp add: selected_district_change_def)

lemmas changes_eval =
  selected_district_change_def change_values_def category_change_def category_data_def
  safe_get_def dict_get_def fsub_def
  OLD_WORKS_SCORE_KEY_def OLD_WORKS_COUNT_KEY_def TOTAL_WORK_COMPLETED_KEY_def
  snapshot_today_def snapshot_yesterday_def OLD_NRM_TARGET_CATEGORIES_def

lemma round_double_half: "round_double (1 / 2) = Finite (1 / 2)"
  by (simp add: double_eval)

lemma round2_half: "round2 (Finite (1 / 2)) = Finite (1 / 2)"
  by (simp add: round_half_even_def round_double_half)

lemma snapshots_ok: "old_works_snapshot snapshot_today" "old_works_snapshot snapshot_yesterday"
  by (simp_all add: old_works_snapshot_def work_types_ok_def figures_ok_def dict_get_def
      OLD_WORKS_SCORE_KEY_def OLD_WORKS_COUNT_KEY_def TOTAL_WORK_COMPLETED_KEY_def
      snapshot_today_def snapshot_yesterday_def OLD_NRM_TARGET_CATEGORIES_def)

lemma snapshot_changes:
  "selected_district_change no_parse no_parse snapshot_today snapshot_yesterday =
     Changes (DistrictChanges (Finite (1 / 2)) 0 3 (Finite 0)
                [''Recharge Pit'' \<mapsto> (3, Finite 0), ''Khet Talab'' \<mapsto> (0, Finite (1 / 2))])"
  by (simp add: changes_eval round_double_zero round_double_half round2_half del: round2.simps)

lemma snapshot_deltas:
  "completed_delta snapshot_today snapshot_yesterday ''Talab Nirman'' = 0"
  "marks_delta snapshot_today snapshot_yesterday ''Talab Nirman'' = Finite 0"
  "completed_delta snapshot_today snapshot_yesterday ''Recharge Pit'' = 3"
  "marks_delta snapshot_today snapshot_yesterday ''Recharge Pit'' = Finite 0"
  "completed_delta snapshot_today snapshot_yesterday ''Khet Talab'' = 0"
  "marks_delta snapshot_today snapshot_yesterday ''Khet Talab'' = Finite (1 / 2)"
  by (simp_all add: completed_delta_def marks_delta_def completed_count_def category_marks_def
      category_figures_def snapshot_today_def snapshot_yesterday_def fsub_def
      round_double_zero round_double_half round2_half del: round2.simps)

theorem category_changes_sparse_witness:
  "old_works_snapshot snapshot_today \<and> old_works_snapshot snapshot_yesterday \<and>
   selected_district_change no_parse no_parse snapshot_today snapshot_yesterday =
     Changes (DistrictChanges (Finite (1 / 2)) 0 3 (Finite 0)
                [''Recharge Pit'' \<mapsto> (3, Finite 0), ''Khet Talab'' \<mapsto> (0, Finite (1 / 2))]) \<and>
   dom [''Recharge Pit'' \<mapsto> (3 :: int, Finite 0), ''Khet Talab'' \<mapsto> (0, Finite (1 / 2))] =
     {category \<in> set OLD_NRM_TARGET_CATEGORIES.
        completed_delta snapshot_today snapshot_yesterday category \<noteq> 0 \<or>
        marks_delta snapshot_today snapshot_yesterday category \<noteq> Finite 0} \<and>
   completed_delta snapshot_today snapshot_yesterday ''Talab Nirman'' = 0 \<and>
   marks_delta snapshot_today snapshot_yesterday ''Talab Nirman'' = Finite 0 \<and>
   completed_delta snapshot_today snapshot_yesterday ''Recharge Pit'' = 3 \<and>
   marks_delta snapshot_today snapshot_yesterday ''Recharge Pit'' = Finite 0 \<and>
   completed_delta snapshot_today snapshot_yesterday ''Khet Talab'' = 0 \<and>
   marks_delta snapshot_today snapshot_yesterday ''Khet Talab'' = Finite (1 / 2)"
  using category_changes_sparse [OF snapshots_ok, of no_parse no_parse] snapshots_ok
    snapshot_deltas
  by (simp add: snapshot_changes)

section \<open>Farm ponds: names\<close>

lemma process_component_data_Some:
  assumes "process_component_data s2f s2i data = Inr (Some p)"
  shows "dict_get p ''name'' PNone = raw_name data"
    and "\<exists>c. dict_get p COUNT_KEY PNone = PInt c"
    and "truthy data"
proof -
  from assms have t: "truthy data"
    by (auto simp: process_component_data_def split: if_splits)
  with assms obtain score c target ach where
    p: "p = [(''name'', safe_get data [NAME_KEY] PNone), (COUNT_KEY, PInt c),
             (SCORE_KEY, PFloat (round2 score)), (''target'', target),
             (''achievement_percentage'', ach)]"
    by (auto simp: process_component_data_def split: sum.splits)
  show "dict_get p ''name'' PNone = raw_name data"
    unfolding p by (simp add: dict_get_def raw_name_def)
  show "\<exists>c. dict_get p COUNT_KEY PNone = PInt c"
    unfolding p by (simp add: dict_get_def COUNT_KEY_def)
  show "truthy data" by (rule t)
qed

lemma falsy_raw_name: "\<not> truthy data \<Longrightarrow> raw_name data = PNone"
  by (cases data rule: truthy.cases) (simp_all add: raw_name_def safe_get_def dict_get_def NAME_KEY_def)

lemma named_entry_Some:
  assumes "named_entry s2f s2i raw = Inr (Some (c, p))"
  shows "truthy (raw_name raw)" and "dict_get p ''name'' PNone = raw_name raw"
proof -
  from assms have pr: "process_component_data s2f s2i raw = Inr (Some p)"
    and t: "truthy (dict_get p ''name'' PNone)"
    by (auto simp: named_entry_def split: sum.splits option.splits if_splits pyval.splits)
  from process_component_data_Some(1) [OF pr] t
  show "truthy (raw_name raw)" "dict_get p ''name'' PNone = raw_name raw" by simp_all
qed

lemma named_entry_None:
  assumes "named_entry s2f s2i raw = Inr None"
  shows "\<not> truthy (raw_name raw)"
proof (cases "process_component_data s2f s2i raw")
  case (Inl e)
  with assms show ?thesis by (simp add: named_entry_def)
next
  case (Inr r)
  show ?thesis
  proof (cases r)
    case None
    with Inr have "\<not> truthy raw"
      by (auto simp: process_component_data_def split: if_splits sum.splits)
    then show ?thesis by (simp add: falsy_raw_name)
  next
    case (Some p)
    from process_component_data_Some [OF Inr [unfolded Some]]
    obtain c where "dict_get p ''name'' PNone = raw_name raw" "dict_get p COUNT_KEY PNone = PInt c"
      by blast
    with assms Inr Some show ?thesis by (simp add: named_entry_def split: if_splits)
  qed
qed

lemma block_entries_names:
  assumes "block_entries s2f s2i fetch raws = Inr entries"
  shows "names_of (map snd entries) = filter truthy (map raw_name raws)"
  using assms
proof (induction raws arbitrary: entries)
  case Nil
  then show ?case by (simp add: names_of_def)
next
  case (Cons raw raws)
  show ?case
  proof (cases "named_entry s2f s2i raw")
    case (Inl e)
    with Cons.prems show ?thesis by simp
  next
    case (Inr r)
    show ?thesis
    proof (cases r)
      case None
      with Inr Cons.prems have "block_entries s2f s2i fetch raws = Inr entries" by simp
      from Cons.IH [OF this] named_entry_None [OF Inr [unfolded None]] show ?thesis by simp
    next
      case (Some cp)
      obtain c p where cp: "cp = (c, p)" by (cases cp)
      note ne = named_entry_Some [OF Inr [unfolded Some cp]]
      from Cons.prems Inr Some cp obtain top5 rest where
        rest: "block_entries s2f s2i fetch raws = Inr rest"
        and entries: "entries = (c, [(''name'', dict_get p ''name'' PNone), (COUNT_KEY, PInt c),
               (SCORE_KEY, dict_get p SCORE_KEY PNone),
               (''top_5_panchayats'', PList (map PDict top5))]) # rest"
        by (auto simp: Let_def split: sum.splits)
      from Cons.IH [OF rest] ne show ?thesis
        unfolding entries by (simp add: names_of_def dict_get_def)
    qed
  qed
qed

lemma panchayat_entries_names:
  assumes "panchayat_entries s2f s2i raws = Inr entries"
  shows "names_of (map snd entries) = filter truthy (map raw_name raws)"
  using assms
proof (induction raws arbitrary: entries)
  case Nil
  then show ?case by (simp add: names_of_def)
next
  case (Cons raw raws)
  show ?case
  proof (cases "named_entry s2f s2i raw")
    case (Inl e)
    with Cons.prems show ?thesis by simp
  next
    case (Inr r)
    from Cons.prems Inr obtain rest where rest: "panchayat_entries s2f s2i raws = Inr rest"
      and entries: "entries = (case r of None \<Rightarrow> rest
         | Some (c, p) \<Rightarrow> (c, [(''name'', dict_get p ''name'' PNone), (COUNT_KEY, PInt c)]) # rest)"
      by (auto split: sum.splits)
    show ?thesis
    proof (cases r)
      case None
      from Cons.IH [OF rest] named_entry_None [OF Inr [unfolded None]] entries None
      show ?thesis by simp
    next
      case (Some cp)
      obtain c p where cp: "cp = (c, p)" by (cases cp)
      note ne = named_entry_Some [OF Inr [unfolded Some cp]]
      from Cons.IH [OF rest] ne show ?thesis
        unfolding entries Some cp by (simp add: names_of_def dict_get_def)
    qed
  qed
qed

lemma names_of_sorted:
  "mset (names_of (map snd (py_sort fst True entries))) = mset (names_of (map snd entries))"
proof -
  have "mset (py_sort fst True entries) = mset entries" by simp
  then have "mset (map snd (py_sort fst True entries)) = mset (map snd entries)"
    by (metis mset_map)
  then show ?thesis unfolding names_of_def by (metis mset_map)
qed

text \<open>
  C4, as amended. Normalization stores the raw name as it is: it is not trimmed or
  upper-cased, and a name that is not a string is kept as long as it is not empty. The
  names in the block-level list are exactly the non-empty raw names of the raw blocks, and
  the names of a block's top panchayats are among the non-empty raw names of its raw
  panchayats: a record whose name is missing, null or empty is in neither list.
\<close>

theorem unnamed_records_skipped:
  "(process_component_data s2f s2i raw = Inr (Some p) \<longrightarrow> dict_get p ''name'' PNone = raw_name raw) \<and>
   (block_level_data s2f s2i fetch raws = Inr blocks \<longrightarrow>
      mset (names_of blocks) = mset (filter truthy (map raw_name raws))) \<and>
   (top_5_panchayats s2f s2i raws = Inr top5 \<longrightarrow>
      set (names_of top5) \<subseteq> set (filter truthy (map raw_name raws)))"
proof (intro conjI impI)
  assume "process_component_data s2f s2i raw = Inr (Some p)"
  then show "dict_get p ''name'' PNone = raw_name raw" by (rule process_component_data_Some(1))
next
  assume "block_level_data s2f s2i fetch raws = Inr blocks"
  then obtain entries where e: "block_entries s2f s2i fetch raws = Inr entries"
    and b: "blocks = map snd (py_sort fst True entries)"
    by (auto simp: block_level_data_def split: sum.splits)
  show "mset (names_of blocks) = mset (filter truthy (map raw_name raws))"
    unfolding b names_of_sorted block_entries_names [OF e] ..
next
  assume "top_5_panchayats s2f s2i raws = Inr top5"
  then obtain entries where e: "panchayat_entries s2f s2i raws = Inr entries"
    and t: "top5 = take 5 (map snd (py_sort fst True entries))"
    by (auto simp: top_5_panchayats_def split: sum.splits)
  have "set top5 \<subseteq> set (map snd (py_sort fst True entries))"
    unfolding t by (rule set_take_subset)
  then have "set (names_of top5) \<subseteq> set (names_of (map snd (py_sort fst True entries)))"
    unfolding names_of_def set_map by (rule image_mono)
  also have "\<dots> = set (names_of (map snd entries))"
    using names_of_sorted [of entries] by (metis set_mset_mset)
  finally show "set (names_of top5) \<subseteq> set (filter truthy (map raw_name raws))"
    unfolding panchayat_entries_names [OF e] .
qed

lemmas farm_eval =
  block_level_data_def top_5_panchayats_def named_entry_def process_component_data_def
  convert_score_def convert_count_def convert_target_def process_achievement_def
  safe_get_def dict_get_def raw_name_def names_of_def py_sort_def no_panchayats_def
  raw_bhopal_def raw_unnamed_def raw_empty_name_def
  NAME_KEY_def COUNT_KEY_def SCORE_KEY_def Let_def

lemma round2_two [simp]: "round2 (Finite 2) = Finite 2"
  by (simp add: double_eval)

lemma round2_one [simp]: "round2 (Finite 1) = Finite 1"
  by (simp add: double_eval)

lemma three_blocks:
  "block_level_data no_parse no_parse no_panchayats [raw_unnamed, raw_bhopal, raw_empty_name] =
     Inr [[(''name'', PStr '' bhopal ''), (''actual_count'', PInt 3), (''marks'', PFloat (Finite 2)),
           (''top_5_panchayats'', PList [])]]"
  by (simp add: farm_eval del: round2.simps)

theorem unnamed_records_skipped_witness:
  "block_level_data no_parse no_parse no_panchayats [raw_unnamed, raw_bhopal, raw_empty_name] =
     Inr [[(''name'', PStr '' bhopal ''), (''actual_count'', PInt 3), (''marks'', PFloat (Finite 2)),
           (''top_5_panchayats'', PList [])]] \<and>
   filter truthy (map raw_name [raw_unnamed, raw_bhopal, raw_empty_name]) = [PStr '' bhopal '']"
  using three_blocks
    unnamed_records_skipped [of no_parse no_parse raw_bhopal _ no_panchayats
      "[raw_unnamed, raw_bhopal, raw_empty_name]" _ _]
  by (simp add: farm_eval)

text \<open>
  The claim as first stated fails: the block named \<open>" bhopal "\<close> is accepted, and its
  stored name is the raw name, not the trimmed, upper-cased \<open>"BHOPAL"\<close>.
\<close>

theorem unnamed_records_counterexample:
  "block_level_data no_parse no_parse no_panchayats [raw_bhopal] =
     Inr [[(''name'', PStr '' bhopal ''), (''actual_count'', PInt 3), (''marks'', PFloat (Finite 2)),
           (''top_5_panchayats'', PList [])]] \<and>
   raw_name raw_bhopal = PStr '' bhopal '' \<and>
   py_upper (py_strip '' bhopal '') = ''BHOPAL''"
  by (simp add: farm_eval py_upper_def py_strip_def ascii_space_def lower_letters_def
      upper_letters_def del: round2.simps)

text \<open>The state-level list, for comparison: it keeps the record that has no name.\<close>

lemma state_list_keeps_unnamed:
  "state_results_processed no_parse no_parse [raw_unnamed] =
     Inr [[(''name'', PNone), (''actual_count'', PInt 9), (''marks'', PFloat (Finite 1)),
           (''target'', PStr ''N/A''), (''achievement_percentage'', PStr ''N/A'')]]"
  by (simp add: farm_eval del: round2.simps)

end
